theory Spec2Isabelle
  imports Main "HOL-Library.Word"
begin

section \<open>Data model of the map server\<close>

text \<open>
  Go's \<open>[]byte\<close> is a list of 8-bit words; a nil slice and an empty slice are both the
  empty list (the code only ever takes their length, ranges over them or converts them to
  a string key). A Go \<open>string\<close> used as a map key is the list of its bytes as well. \<open>int64\<close> and \<open>uint64\<close> are 64-bit words: \<open>sint\<close> reads an
  \<open>int64\<close>, \<open>unat\<close> a \<open>uint64\<close>, and the conversions \<open>int64(x)\<close> and \<open>uint64(x)\<close>
  keep the 64 bits as they are.
\<close>

type_synonym bytes = "8 word list"
type_synonym int64 = "64 word"
type_synonym uint64 = "64 word"

text \<open>The gRPC status codes the server uses; \<open>Unknown\<close> is the code of an error that
  carries no status.\<close>

datatype codes = Unknown | InvalidArgument | FailedPrecondition | AlreadyExists | Internal

text \<open>
  Error values. \<open>Errorf\<close> is \<open>fmt.Errorf\<close> and \<open>StatusErrorf\<close> is \<open>status.Errorf\<close>: the
  format string is kept with its arguments, unrendered. \<open>Collaborator k\<close> is an error
  value that a collaborator (storage, admin store, signer, Merkle library) returned;
  \<open>ErrTreeNeedsInit\<close> is the storage sentinel. \<open>RuntimePanic\<close> stands for a run-time
  panic (reading a field through a nil pointer, a slice of negative length).
\<close>

datatype error =
    ErrTreeNeedsInit
  | Collaborator nat
  | Errorf string "fmtarg list"
  | StatusErrorf codes string "fmtarg list"
  | RuntimePanic string
and fmtarg = ArgInt int | ArgErr error

text \<open>\<open>status.Code(err)\<close> of the gRPC library: the code of a status error, \<open>Unknown\<close> for
  every other error.\<close>

fun status_code :: "error \<Rightarrow> codes" where
  "status_code (StatusErrorf c f as) = c"
| "status_code e = Unknown"

record MapLeaf =
  Index :: bytes
  LeafHash :: bytes
  LeafValue :: bytes
  ExtraData :: bytes

record MapRootV1 =
  RootHash :: bytes
  TimestampNanos :: uint64
  Revision :: uint64
  Metadata :: bytes

text \<open>The \<open>MapRoot\<close> field of a \<open>SignedMapRoot\<close> is tested against nil by \<open>InitMap\<close>, so
  it is an option: \<open>None\<close> is the nil slice.\<close>

record SignedMapRoot =
  MapRoot :: "bytes option"
  Signature :: bytes

record Tree =
  TreeId :: int64
  HashStrategy :: nat

record MapHasher =
  Size :: int
  BitLen :: int
  HashLeaf :: "int64 \<Rightarrow> bytes \<Rightarrow> bytes \<Rightarrow> bytes"
  HashEmpty :: "int64 \<Rightarrow> bytes \<Rightarrow> int \<Rightarrow> bytes"

record HashKeyValue =
  HashedKey :: bytes
  HashedValue :: bytes

record TrillianMapServerOptions =
  UseSingleTransaction :: bool
  UseLargePreload :: bool

section \<open>validateIndices\<close>

text \<open>A Go \<open>map[string]bool\<close>: a missing key reads as \<open>false\<close>.\<close>

definition seen :: "(bytes \<rightharpoonup> bool) \<Rightarrow> bytes \<Rightarrow> bool" where
  "seen m k = (case m k of None \<Rightarrow> False | Some b \<Rightarrow> b)"

text \<open>
  The loop \<open>for i := 0; i < n; i++\<close> of \<open>validateIndices\<close>, from position \<open>i\<close> with the
  map \<open>seenIndices\<close> built so far. \<open>None\<close> is the nil error.
\<close>

function validateIndices_loop ::
  "int \<Rightarrow> nat \<Rightarrow> (nat \<Rightarrow> bytes) \<Rightarrow> (bytes \<rightharpoonup> bool) \<Rightarrow> nat \<Rightarrow> error option" where
  "validateIndices_loop indexSize n indices seenIndices i =
     (if i < n then
        (let index = indices i; got = int (length index); want = indexSize in
         if got \<noteq> want then
           Some (StatusErrorf InvalidArgument
             ''index at position %d has wrong length: got=%d,want=%d''
             [ArgInt (int i), ArgInt got, ArgInt want])
         else if seen seenIndices index then
           Some (StatusErrorf InvalidArgument
             ''duplicate index detected at position %d'' [ArgInt (int i)])
         else validateIndices_loop indexSize n indices (seenIndices(index \<mapsto> True)) (i + 1))
      else None)"
  by pat_completeness auto
termination
  by (relation "measure (\<lambda>(indexSize, n, indices, seenIndices, i). n - i)") auto

definition validateIndices :: "int \<Rightarrow> nat \<Rightarrow> (nat \<Rightarrow> bytes) \<Rightarrow> error option" where
  "validateIndices indexSize n indices = validateIndices_loop indexSize n indices Map.empty 0"

text \<open>The two errors of \<open>validateIndices\<close>, by position.\<close>

definition wrong_length_error :: "nat \<Rightarrow> int \<Rightarrow> int \<Rightarrow> error" where
  "wrong_length_error i got want =
     StatusErrorf InvalidArgument ''index at position %d has wrong length: got=%d,want=%d''
       [ArgInt (int i), ArgInt got, ArgInt want]"

definition duplicate_error :: "nat \<Rightarrow> error" where
  "duplicate_error i =
     StatusErrorf InvalidArgument ''duplicate index detected at position %d'' [ArgInt (int i)]"

text \<open>
  Position \<open>j\<close> of a request offends when its index has the wrong length or repeats an
  earlier index of the request.
\<close>

definition offending :: "int \<Rightarrow> bytes list \<Rightarrow> nat \<Rightarrow> bool" where
  "offending sz xs j = (int (length (xs ! j)) \<noteq> sz \<or> xs ! j \<in> set (take j xs))"

text \<open>Positions \<open>i..<p\<close> pass the loop started at \<open>i\<close> with the map \<open>m\<close>: right length, not
  in \<open>m\<close>, and not equal to an earlier position of the range.\<close>

definition passes :: "int \<Rightarrow> (nat \<Rightarrow> bytes) \<Rightarrow> (bytes \<rightharpoonup> bool) \<Rightarrow> nat \<Rightarrow> nat \<Rightarrow> bool" where
  "passes sz f m i p =
     (\<forall>j. i \<le> j \<and> j < p \<longrightarrow>
        int (length (f j)) = sz \<and> \<not> seen m (f j) \<and> (\<forall>k. i \<le> k \<and> k < j \<longrightarrow> f k \<noteq> f j))"

section \<open>Collaborators of the map server\<close>

text \<open>
  The admin store, the map storage and its transactions, the signer, the hashers and the
  sparse Merkle tree library are interfaces whose implementations are outside the server.
  The server's calls to them are recorded, in order, in a history of events; what a call
  returns is given by an environment, as a function of the history before the call and of
  the call's arguments, so that every deterministic collaborator, stateful or not, is an
  instance. Metrics, tracing spans and logging are left out: they return nothing.
\<close>

datatype GetOpts = optsMapInit | optsMapRead | optsMapWrite

datatype TXRunner = singleTXRunner | multiTXRunner

text \<open>Modelled from the spec: \<open>tree.NodeID\<close> is declared by the storage layer; "a node id
  is (depth, prefix_bits)".\<close>

record NodeID =
  PrefixLenBits :: int
  Path :: bytes

datatype event =
    EvGetTree int64 GetOpts
  | EvSnapshotForTree
  | EvBeginTx
  | EvLatestSignedMapRoot
  | EvGetSignedMapRoot int64
  | EvGet int64 "bytes list"
  | EvBatchInclusionProof int64 int64 "bytes list"
  | EvCommit
  | EvClose
  | EvWriteRevision
  | EvReadRevision
  | EvSet bytes MapLeaf
  | EvGetMerkleNodes int64 "NodeID list"
  | EvNewSparseMerkleTreeWriter int64 int64 TXRunner
  | EvSMTSetLeaves "HashKeyValue list"
  | EvCalculateRoot
  | EvSignMapRoot MapRootV1
  | EvStoreSignedMapRoot SignedMapRoot

type_synonym history = "event list"

text \<open>What \<open>MapStorage.SnapshotForTree\<close> returns: a transaction and no error, an error
  with the transaction left open (the \<open>ErrTreeNeedsInit\<close> case), or an error and no
  transaction.\<close>

datatype snapshot_result = SnapOK | SnapErrOpen error | SnapErr error

text \<open>
  A pointer result of Go is an option (\<open>None\<close> is nil) where the server may see nil, and
  an (\<open>result\<close>, \<open>error\<close>) pair of Go is kept as a pair where the server reads the result next to
  a non-nil error. \<open>tx.Get\<close> returns leaves through non-nil pointers. \<open>leavesFirst\<close> tells
  which of the two goroutines of \<open>getLeavesByRevision\<close> runs (and reports) first;
  \<open>schedule\<close> is the order in which the producers of \<open>calcAllSiblingsParallel\<close> get to
  send.
\<close>

record env =
  GetTree :: "history \<Rightarrow> int64 \<Rightarrow> GetOpts \<Rightarrow> error + Tree"
  NewMapHasher :: "nat \<Rightarrow> error + MapHasher"
  SnapshotForTree :: "history \<Rightarrow> Tree \<Rightarrow> snapshot_result"
  BeginTx :: "history \<Rightarrow> Tree \<Rightarrow> error option"
  LatestSignedMapRoot :: "history \<Rightarrow> SignedMapRoot option \<times> error option"
  GetSignedMapRoot :: "history \<Rightarrow> int64 \<Rightarrow> SignedMapRoot option \<times> error option"
  tx_Get :: "history \<Rightarrow> int64 \<Rightarrow> bytes list \<Rightarrow> error + MapLeaf list"
  tx_Set :: "history \<Rightarrow> bytes \<Rightarrow> MapLeaf \<Rightarrow> error option"
  tx_Commit :: "history \<Rightarrow> error option"
  WriteRevision :: "history \<Rightarrow> error + int64"
  ReadRevision :: "history \<Rightarrow> error + int64"
  GetMerkleNodes :: "history \<Rightarrow> int64 \<Rightarrow> NodeID list \<Rightarrow> error option"
  StoreSignedMapRoot :: "history \<Rightarrow> SignedMapRoot \<Rightarrow> error option"
  UnmarshalBinary :: "bytes option \<Rightarrow> error + MapRootV1"
  BatchInclusionProof :: "history \<Rightarrow> int64 \<Rightarrow> int64 \<Rightarrow> bytes list \<Rightarrow> error + (bytes \<rightharpoonup> bytes list)"
  NewSparseMerkleTreeWriter :: "history \<Rightarrow> int64 \<Rightarrow> int64 \<Rightarrow> TXRunner \<Rightarrow> error option"
  SMTSetLeaves :: "history \<Rightarrow> HashKeyValue list \<Rightarrow> error option"
  CalculateRoot :: "history \<Rightarrow> error + bytes"
  Signer :: "history \<Rightarrow> Tree \<Rightarrow> error option"
  SignMapRoot :: "history \<Rightarrow> MapRootV1 \<Rightarrow> error + SignedMapRoot"
  Now :: "history \<Rightarrow> uint64"
  NewNodeIDFromHash :: "bytes \<Rightarrow> NodeID"
  Siblings :: "NodeID \<Rightarrow> NodeID list"
  AsKey :: "NodeID \<Rightarrow> bytes"
  leavesFirst :: bool
  schedule :: "nat list"

text \<open>
  Modelled from the spec: \<open>MapStorage.ReadWriteTransaction\<close> is implemented by the storage
  driver. It opens a read-write transaction, runs \<open>f\<close> in it, and commits when \<open>f\<close> returned
  no error; "any read/write/hash failure aborts the enclosing transaction", the error of
  \<open>f\<close> is returned as it is, and the transaction is released on every path. The value the
  Go closure leaves in a captured variable is the \<open>Inr\<close> result of \<open>f\<close>: the callers drop
  it when an error is returned.
\<close>

definition ReadWriteTransaction ::
  "env \<Rightarrow> Tree \<Rightarrow> (history \<Rightarrow> (error + 'a) \<times> history) \<Rightarrow> history \<Rightarrow> (error + 'a) \<times> history" where
  "ReadWriteTransaction E tree f h =
     (case BeginTx E h tree of
        Some err \<Rightarrow> (Inl err, h @ [EvBeginTx])
      | None \<Rightarrow>
          (case f (h @ [EvBeginTx]) of
             (Inl err, h1) \<Rightarrow> (Inl err, h1 @ [EvClose])
           | (Inr x, h1) \<Rightarrow>
               (case tx_Commit E h1 of
                  Some err \<Rightarrow> (Inl err, h1 @ [EvCommit, EvClose])
                | None \<Rightarrow> (Inr x, h1 @ [EvCommit, EvClose]))))"

section \<open>Helpers of the map server\<close>

definition mostRecentRevision :: int64 where
  "mostRecentRevision = - 1"

definition getTreeAndHasher ::
  "env \<Rightarrow> int64 \<Rightarrow> GetOpts \<Rightarrow> history \<Rightarrow> (error + Tree \<times> MapHasher) \<times> history" where
  "getTreeAndHasher E treeID opts h =
     (case GetTree E h treeID opts of
        Inl err \<Rightarrow> (Inl err, h @ [EvGetTree treeID opts])
      | Inr tree \<Rightarrow>
          (case NewMapHasher E (HashStrategy tree) of
             Inl err \<Rightarrow> (Inl err, h @ [EvGetTree treeID opts])
           | Inr th \<Rightarrow> (Inr (tree, th), h @ [EvGetTree treeID opts])))"

definition getTreeAndContext ::
  "env \<Rightarrow> int64 \<Rightarrow> GetOpts \<Rightarrow> history \<Rightarrow> (error + Tree) \<times> history" where
  "getTreeAndContext E treeID opts h = (GetTree E h treeID opts, h @ [EvGetTree treeID opts])"

text \<open>\<open>snapshotForTree\<close> closes the transaction that an error left open; \<open>closeAndLog\<close>
  only logs what \<open>Close\<close> returns, so it is the event alone.\<close>

definition snapshotForTree :: "env \<Rightarrow> Tree \<Rightarrow> history \<Rightarrow> error option \<times> history" where
  "snapshotForTree E tree h =
     (case SnapshotForTree E h tree of
        SnapOK \<Rightarrow> (None, h @ [EvSnapshotForTree])
      | SnapErrOpen err \<Rightarrow> (Some err, h @ [EvSnapshotForTree, EvClose])
      | SnapErr err \<Rightarrow> (Some err, h @ [EvSnapshotForTree]))"

definition makeSignedMapRoot ::
  "env \<Rightarrow> Tree \<Rightarrow> uint64 \<Rightarrow> bytes \<Rightarrow> int64 \<Rightarrow> int64 \<Rightarrow> bytes \<Rightarrow> history
     \<Rightarrow> (error + SignedMapRoot) \<times> history" where
  "makeSignedMapRoot E tree smrTs rootHash mapID revision meta h =
     (let smr = \<lparr>RootHash = rootHash, TimestampNanos = smrTs, Revision = revision,
                 Metadata = meta\<rparr>
      in case Signer E h tree of
           Some err \<Rightarrow> (Inl (Errorf ''trees.Signer(): %v'' [ArgErr err]), h)
         | None \<Rightarrow>
             (case SignMapRoot E h smr of
                Inl err \<Rightarrow> (Inl (Errorf ''SignMapRoot(): %v'' [ArgErr err]), h @ [EvSignMapRoot smr])
              | Inr root \<Rightarrow> (Inr root, h @ [EvSignMapRoot smr])))"

section \<open>Reads\<close>

record GetMapLeavesRequest =
  MapId :: int64
  Index :: "bytes list"

record GetMapLeavesByRevisionRequest =
  MapId :: int64
  Index :: "bytes list"
  Revision :: int64

record MapLeafInclusion =
  Leaf :: "MapLeaf option"
  Inclusion :: "bytes list"

record GetMapLeavesResponse =
  MapLeafInclusion :: "MapLeafInclusion list"
  MapRoot :: SignedMapRoot

record GetSignedMapRootByRevisionRequest =
  MapId :: int64
  Revision :: int64

record GetSignedMapRootResponse =
  MapRoot :: "SignedMapRoot option"

text \<open>\<open>&trillian.MapLeaf{Index: index}\<close>: every other field is empty.\<close>

definition emptyLeaf :: "bytes \<Rightarrow> MapLeaf" where
  "emptyLeaf index = \<lparr>MapLeaf.Index = index, LeafHash = [], LeafValue = [], ExtraData = []\<rparr>"

text \<open>
  The first goroutine of \<open>getLeavesByRevision\<close>: the leaves that \<open>tx.Get\<close> returns are put
  in \<open>leavesByIndex\<close> under their own index, then every requested index without an entry
  gets an empty leaf.
\<close>

definition fetchLeaves ::
  "env \<Rightarrow> history \<Rightarrow> int64 \<Rightarrow> bytes list \<Rightarrow> error + (bytes \<rightharpoonup> MapLeaf)" where
  "fetchLeaves E h revision indices =
     (case tx_Get E h revision indices of
        Inl err \<Rightarrow> Inl (Errorf ''could not fetch leaves: %v'' [ArgErr err])
      | Inr leaves \<Rightarrow>
          (let leavesByIndex = fold (\<lambda>l m. m(MapLeaf.Index l \<mapsto> l)) leaves Map.empty
           in Inr (fold (\<lambda>index m. if m index = None then m(index \<mapsto> emptyLeaf index) else m)
                     indices leavesByIndex)))"

text \<open>The second goroutine: the reader is made for \<open>revision\<close> and asked for the proofs at
  \<open>revision\<close>.\<close>

definition fetchProofs ::
  "env \<Rightarrow> history \<Rightarrow> int64 \<Rightarrow> bytes list \<Rightarrow> error + (bytes \<rightharpoonup> bytes list)" where
  "fetchProofs E h revision indices =
     (case BatchInclusionProof E h revision revision indices of
        Inl err \<Rightarrow> Inl (Errorf ''could not fetch inclusion proofs: %v'' [ArgErr err])
      | Inr proofs \<Rightarrow> Inr proofs)"

text \<open>
  The two goroutines, joined by \<open>wg.Wait()\<close>, and the \<open>select\<close> on \<open>errCh\<close>: the error of
  the goroutine that reported first is returned. Each goroutine makes one call on the
  transaction, so the schedule is the order of the two calls.
\<close>

definition fetchConcurrently ::
  "env \<Rightarrow> int64 \<Rightarrow> bytes list \<Rightarrow> history
     \<Rightarrow> (error + (bytes \<rightharpoonup> MapLeaf) \<times> (bytes \<rightharpoonup> bytes list)) \<times> history" where
  "fetchConcurrently E revision indices h =
     (let evL = EvGet revision indices; evP = EvBatchInclusionProof revision revision indices
      in if leavesFirst E then
           (case (fetchLeaves E h revision indices, fetchProofs E (h @ [evL]) revision indices) of
              (Inl e, _) \<Rightarrow> (Inl e, h @ [evL, evP])
            | (Inr _, Inl e) \<Rightarrow> (Inl e, h @ [evL, evP])
            | (Inr leavesByIndex, Inr proofs) \<Rightarrow> (Inr (leavesByIndex, proofs), h @ [evL, evP]))
         else
           (case (fetchProofs E h revision indices, fetchLeaves E (h @ [evP]) revision indices) of
              (Inl e, _) \<Rightarrow> (Inl e, h @ [evP, evL])
            | (Inr _, Inl e) \<Rightarrow> (Inl e, h @ [evP, evL])
            | (Inr proofs, Inr leavesByIndex) \<Rightarrow> (Inr (leavesByIndex, proofs), h @ [evP, evL])))"

text \<open>Lines 210 to 224: the latest root when \<open>revision < 0\<close>, the root of \<open>revision\<close>
  otherwise.\<close>

definition fetchRoot ::
  "env \<Rightarrow> int64 \<Rightarrow> history \<Rightarrow> (error + SignedMapRoot option) \<times> history" where
  "fetchRoot E revision h =
     (if sint revision < 0 then
        (case LatestSignedMapRoot E h of
           (r, Some err) \<Rightarrow>
             (Inl (Errorf ''could not fetch the latest SignedMapRoot: %v'' [ArgErr err]),
              h @ [EvLatestSignedMapRoot])
         | (r, None) \<Rightarrow> (Inr r, h @ [EvLatestSignedMapRoot]))
      else
        (case GetSignedMapRoot E h revision of
           (r, Some err) \<Rightarrow>
             (Inl (Errorf ''could not fetch SignedMapRoot %v: %v'' [ArgInt (sint revision), ArgErr err]),
              h @ [EvGetSignedMapRoot revision])
         | (r, None) \<Rightarrow> (Inr r, h @ [EvGetSignedMapRoot revision])))"

text \<open>\<open>proofs[string(index)]\<close>: a missing key reads as the nil slice.\<close>

definition proofOf :: "(bytes \<rightharpoonup> bytes list) \<Rightarrow> bytes \<Rightarrow> bytes list" where
  "proofOf proofs index = (case proofs index of None \<Rightarrow> [] | Some p \<Rightarrow> p)"

definition getLeavesByRevision ::
  "env \<Rightarrow> int64 \<Rightarrow> bytes list \<Rightarrow> int64 \<Rightarrow> history \<Rightarrow> (error + GetMapLeavesResponse) \<times> history" where
  "getLeavesByRevision E mapID indices revision h =
     (case getTreeAndHasher E mapID optsMapRead h of
        (Inl err, h1) \<Rightarrow>
          (Inl (Errorf ''could not get map %v: %v'' [ArgInt (sint mapID), ArgErr err]), h1)
      | (Inr (tree, hasher), h1) \<Rightarrow>
      (case validateIndices (Size hasher) (length indices) (\<lambda>i. indices ! i) of
        Some err \<Rightarrow> (Inl err, h1)
      | None \<Rightarrow>
      (case snapshotForTree E tree h1 of
        (Some err, h2) \<Rightarrow>
          (Inl (Errorf ''could not create database snapshot: %v'' [ArgErr err]), h2)
      | (None, h2) \<Rightarrow>
      (case fetchRoot E revision h2 of
        (Inl err, h3) \<Rightarrow> (Inl err, h3 @ [EvClose])
      | (Inr None, h3) \<Rightarrow>
          (Inl (RuntimePanic ''nil pointer dereference''), h3 @ [EvClose])
      | (Inr (Some root), h3) \<Rightarrow>
      (case UnmarshalBinary E (SignedMapRoot.MapRoot root) of
        Inl err \<Rightarrow> (Inl err, h3 @ [EvClose])
      | Inr mapRoot \<Rightarrow>
      (case fetchConcurrently E (MapRootV1.Revision mapRoot) indices h3 of
        (Inl e, h4) \<Rightarrow> (Inl e, h4 @ [EvClose])
      | (Inr (leavesByIndex, proofs), h4) \<Rightarrow>
      (case tx_Commit E h4 of
        Some err \<Rightarrow>
          (Inl (Errorf ''could not commit db transaction: %v'' [ArgErr err]),
           h4 @ [EvCommit, EvClose])
      | None \<Rightarrow>
          (Inr \<lparr>MapLeafInclusion =
                  map (\<lambda>index. \<lparr>Leaf = leavesByIndex index,
                                 Inclusion = proofOf proofs index\<rparr>) indices,
                MapRoot = root\<rparr>,
           h4 @ [EvCommit, EvClose]))))))))"


definition GetLeavesByRevision ::
  "env \<Rightarrow> GetMapLeavesByRevisionRequest \<Rightarrow> history
     \<Rightarrow> (error + GetMapLeavesResponse) \<times> history" where
  "GetLeavesByRevision E req h =
     (if sint (GetMapLeavesByRevisionRequest.Revision req) < 0 then
        (Inl (Errorf ''map revision %d must be >= 0''
                [ArgInt (sint (GetMapLeavesByRevisionRequest.Revision req))]), h)
      else getLeavesByRevision E (GetMapLeavesByRevisionRequest.MapId req)
             (GetMapLeavesByRevisionRequest.Index req)
             (GetMapLeavesByRevisionRequest.Revision req) h)"

text \<open>\<open>GetLeavesByRevisionNoProof\<close> returns the \<open>Leaves\<close> of its \<open>MapLeaves\<close> response. It
  does not commit: the deferred \<open>closeAndLog\<close> ends the snapshot.\<close>

definition GetLeavesByRevisionNoProof ::
  "env \<Rightarrow> GetMapLeavesByRevisionRequest \<Rightarrow> history \<Rightarrow> (error + MapLeaf list) \<times> history" where
  "GetLeavesByRevisionNoProof E req h =
     (let mapID = GetMapLeavesByRevisionRequest.MapId req;
          indices = GetMapLeavesByRevisionRequest.Index req;
          revision = GetMapLeavesByRevisionRequest.Revision req
      in
      if sint revision < 0 then
        (Inl (Errorf ''map revision %d must be >= 0'' [ArgInt (sint revision)]), h)
      else
      (case getTreeAndHasher E mapID optsMapRead h of
        (Inl err, h1) \<Rightarrow>
          (Inl (Errorf ''could not get map %v: %v'' [ArgInt (sint mapID), ArgErr err]), h1)
      | (Inr (tree, hasher), h1) \<Rightarrow>
      (case validateIndices (Size hasher) (length indices) (\<lambda>i. indices ! i) of
        Some err \<Rightarrow> (Inl err, h1)
      | None \<Rightarrow>
      (case snapshotForTree E tree h1 of
        (Some err, h2) \<Rightarrow>
          (Inl (Errorf ''could not create database snapshot: %v'' [ArgErr err]), h2)
      | (None, h2) \<Rightarrow>
      (case tx_Get E h2 revision indices of
        Inl err \<Rightarrow> (Inl err, h2 @ [EvGet revision indices, EvClose])
      | Inr leaves \<Rightarrow>
          (Inr (map (\<lambda>l. l\<lparr>LeafHash := []\<rparr>) leaves),
           h2 @ [EvGet revision indices, EvClose]))))))"

definition GetSignedMapRootByRevision ::
  "env \<Rightarrow> GetSignedMapRootByRevisionRequest \<Rightarrow> history
     \<Rightarrow> (error + GetSignedMapRootResponse) \<times> history" where
  "GetSignedMapRootByRevision E req h =
     (let revision = GetSignedMapRootByRevisionRequest.Revision req in
      if sint revision < 0 then
        (Inl (Errorf ''map revision %d must be >= 0'' [ArgInt (sint revision)]), h)
      else
      (case getTreeAndContext E (GetSignedMapRootByRevisionRequest.MapId req) optsMapRead h of
        (Inl err, h1) \<Rightarrow> (Inl err, h1)
      | (Inr tree, h1) \<Rightarrow>
      (case snapshotForTree E tree h1 of
        (Some err, h2) \<Rightarrow> (Inl err, h2)
      | (None, h2) \<Rightarrow>
      (case GetSignedMapRoot E h2 revision of
        (r, Some err) \<Rightarrow> (Inl err, h2 @ [EvGetSignedMapRoot revision, EvClose])
      | (r, None) \<Rightarrow>
      (case tx_Commit E (h2 @ [EvGetSignedMapRoot revision]) of
        Some err \<Rightarrow> (Inl err, h2 @ [EvGetSignedMapRoot revision, EvCommit, EvClose])
      | None \<Rightarrow>
          (Inr \<lparr>GetSignedMapRootResponse.MapRoot = r\<rparr>,
           h2 @ [EvGetSignedMapRoot revision, EvCommit, EvClose]))))))"

section \<open>Writes\<close>

record SetMapLeavesRequest =
  MapId :: int64
  Leaves :: "MapLeaf list"
  Metadata :: bytes
  Revision :: int64

definition getWriteRevision :: "env \<Rightarrow> int64 \<Rightarrow> history \<Rightarrow> (error + int64) \<times> history" where
  "getWriteRevision E assertRev h =
     (case WriteRevision E h of
        Inl err \<Rightarrow> (Inl err, h @ [EvWriteRevision])
      | Inr writeRev \<Rightarrow>
          if assertRev \<noteq> 0 \<and> writeRev \<noteq> assertRev then
            (Inl (StatusErrorf FailedPrecondition ''can't write to revision %v''
                    [ArgInt (sint assertRev)]),
             h @ [EvWriteRevision])
          else (Inr writeRev, h @ [EvWriteRevision]))"

fun writeLeaves :: "env \<Rightarrow> MapLeaf list \<Rightarrow> history \<Rightarrow> error option \<times> history" where
  "writeLeaves E [] h = (None, h)"
| "writeLeaves E (l # ls) h =
     (case tx_Set E h (MapLeaf.Index l) l of
        Some err \<Rightarrow> (Some err, h @ [EvSet (MapLeaf.Index l) l])
      | None \<Rightarrow> writeLeaves E ls (h @ [EvSet (MapLeaf.Index l) l]))"

text \<open>
  The channel of \<open>calcAllSiblingsParallel\<close> delivers the producers' sends in some
  interleaving that keeps each producer's own order. \<open>interleave ks qs\<close> is the interleaving
  in which producer \<open>k\<close> sends next, for each \<open>k\<close> of \<open>ks\<close> in turn (a producer that is
  done, or is none, is skipped), and what is left when \<open>ks\<close> ends is sent producer by
  producer.
\<close>

fun interleave :: "nat list \<Rightarrow> 'a list list \<Rightarrow> 'a list" where
  "interleave [] qs = concat qs"
| "interleave (k # ks) qs =
     (if k < length qs then
        (case qs ! k of
           [] \<Rightarrow> interleave ks qs
         | x # rest \<Rightarrow> x # interleave ks (qs[k := rest]))
      else interleave ks qs)"

text \<open>The consumer: a node is appended when its key is not yet in \<open>nidSet\<close>.\<close>

fun consume :: "(NodeID \<Rightarrow> bytes) \<Rightarrow> NodeID list \<Rightarrow> (bytes \<rightharpoonup> bool) \<Rightarrow> NodeID list \<Rightarrow> NodeID list" where
  "consume key [] nidSet nids = nids"
| "consume key (node # c) nidSet nids =
     (if nidSet (key node) = None
      then consume key c (nidSet(key node \<mapsto> True)) (nids @ [node])
      else consume key c nidSet nids)"

text \<open>The sends of one producer: the siblings of the node id of a hashed key, in order.\<close>

definition producer :: "env \<Rightarrow> bytes \<Rightarrow> NodeID list" where
  "producer E k = Siblings E (NewNodeIDFromHash E k)"

definition calcAllSiblingsParallel :: "env \<Rightarrow> int \<Rightarrow> HashKeyValue list \<Rightarrow> NodeID list" where
  "calcAllSiblingsParallel E treeDepth hkv =
     consume (AsKey E) (interleave (schedule E) (map (\<lambda>i. producer E (HashedKey i)) hkv))
       Map.empty []"

definition doPreload :: "env \<Rightarrow> int \<Rightarrow> HashKeyValue list \<Rightarrow> history \<Rightarrow> error option \<times> history" where
  "doPreload E treeDepth hkv h =
     (case ReadRevision E h of
        Inl err \<Rightarrow> (Some err, h @ [EvReadRevision])
      | Inr readRev \<Rightarrow>
          (let nids = calcAllSiblingsParallel E treeDepth hkv
           in (GetMerkleNodes E (h @ [EvReadRevision]) readRev nids,
               h @ [EvReadRevision, EvGetMerkleNodes readRev nids])))"

definition newTXRunner :: "TrillianMapServerOptions \<Rightarrow> TXRunner" where
  "newTXRunner opts = (if UseSingleTransaction opts then singleTXRunner else multiTXRunner)"

text \<open>The writer of the sparse Merkle tree is a collaborator: its construction,
  \<open>SetLeaves\<close> and \<open>CalculateRoot\<close> are one event each. The parameter \<open>rev\<close> of the
  source is \<open>rev'\<close> (\<open>rev\<close> reverses a list in HOL).\<close>

definition updateTree ::
  "env \<Rightarrow> TrillianMapServerOptions \<Rightarrow> Tree \<Rightarrow> MapHasher \<Rightarrow> HashKeyValue list \<Rightarrow> bytes \<Rightarrow> int64
     \<Rightarrow> history \<Rightarrow> (error + SignedMapRoot) \<times> history" where
  "updateTree E opts tree hasher hkv metadata rev' h =
     (case (if UseSingleTransaction opts \<and> UseLargePreload opts
            then doPreload E (BitLen hasher) hkv h else (None, h)) of
        (Some err, h1) \<Rightarrow> (Inl err, h1)
      | (None, h1) \<Rightarrow>
      (let evW = EvNewSparseMerkleTreeWriter (TreeId tree) rev' (newTXRunner opts) in
       case NewSparseMerkleTreeWriter E h1 (TreeId tree) rev' (newTXRunner opts) of
        Some err \<Rightarrow> (Inl err, h1 @ [evW])
      | None \<Rightarrow>
      (case SMTSetLeaves E (h1 @ [evW]) hkv of
        Some err \<Rightarrow> (Inl err, h1 @ [evW, EvSMTSetLeaves hkv])
      | None \<Rightarrow>
      (case CalculateRoot E (h1 @ [evW, EvSMTSetLeaves hkv]) of
        Inl err \<Rightarrow>
          (Inl (Errorf ''CalculateRoot(): %v'' [ArgErr err]),
           h1 @ [evW, EvSMTSetLeaves hkv, EvCalculateRoot])
      | Inr rootHash \<Rightarrow>
      (let h4 = h1 @ [evW, EvSMTSetLeaves hkv, EvCalculateRoot] in
       case makeSignedMapRoot E tree (Now E h4) rootHash (TreeId tree) rev' metadata h4 of
        (Inl err, h5) \<Rightarrow> (Inl (Errorf ''makeSignedMapRoot(): %v'' [ArgErr err]), h5)
      | (Inr newRoot, h5) \<Rightarrow>
      (case StoreSignedMapRoot E h5 newRoot of
        Some err \<Rightarrow> (Inl err, h5 @ [EvStoreSignedMapRoot newRoot])
      | None \<Rightarrow> (Inr newRoot, h5 @ [EvStoreSignedMapRoot newRoot])))))))"

text \<open>The function that \<open>SetLeaves\<close> hands to \<open>ReadWriteTransaction\<close>.\<close>

definition SetLeaves_tx ::
  "env \<Rightarrow> TrillianMapServerOptions \<Rightarrow> Tree \<Rightarrow> MapHasher \<Rightarrow> MapLeaf list \<Rightarrow> HashKeyValue list
     \<Rightarrow> bytes \<Rightarrow> int64 \<Rightarrow> history \<Rightarrow> (error + SignedMapRoot) \<times> history" where
  "SetLeaves_tx E opts tree hasher leaves hkv metadata assertRev h =
     (case getWriteRevision E assertRev h of
        (Inl err, h1) \<Rightarrow> (Inl err, h1)
      | (Inr writeRev, h1) \<Rightarrow>
      (case writeLeaves E leaves h1 of
        (Some err, h2) \<Rightarrow> (Inl err, h2)
      | (None, h2) \<Rightarrow> updateTree E opts tree hasher hkv metadata writeRev h2))"

text \<open>\<open>SetLeaves\<close> returns the \<open>MapRoot\<close> of its response. The leaves are pointers: the
  hashes it sets are in the leaves that \<open>writeLeaves\<close> stores.\<close>

definition SetLeaves ::
  "env \<Rightarrow> TrillianMapServerOptions \<Rightarrow> SetMapLeavesRequest \<Rightarrow> history
     \<Rightarrow> (error + SignedMapRoot) \<times> history" where
  "SetLeaves E opts req h =
     (case getTreeAndHasher E (SetMapLeavesRequest.MapId req) optsMapWrite h of
        (Inl err, h1) \<Rightarrow> (Inl err, h1)
      | (Inr (tree, hasher), h1) \<Rightarrow>
      (case validateIndices (Size hasher) (length (Leaves req))
              (\<lambda>i. MapLeaf.Index (Leaves req ! i)) of
        Some err \<Rightarrow> (Inl err, h1)
      | None \<Rightarrow>
      (let leaves = map (\<lambda>l. l\<lparr>LeafHash := HashLeaf hasher (TreeId tree) (MapLeaf.Index l)
                                               (LeafValue l)\<rparr>) (Leaves req);
           hkv = map (\<lambda>l. \<lparr>HashedKey = MapLeaf.Index l, HashedValue = LeafHash l\<rparr>) leaves
       in ReadWriteTransaction E tree
            (SetLeaves_tx E opts tree hasher leaves hkv (SetMapLeavesRequest.Metadata req)
               (SetMapLeavesRequest.Revision req)) h1)))"

text \<open>\<open>latestRoot.GetMapRoot()\<close>: the getter of a nil message returns nil.\<close>

definition GetMapRoot :: "SignedMapRoot option \<Rightarrow> bytes option" where
  "GetMapRoot r = (case r of None \<Rightarrow> None | Some root \<Rightarrow> SignedMapRoot.MapRoot root)"

text \<open>The function that \<open>InitMap\<close> hands to \<open>ReadWriteTransaction\<close>; \<open>make([]byte, n)\<close>
  panics when \<open>n\<close> is negative.\<close>

definition InitMap_tx ::
  "env \<Rightarrow> Tree \<Rightarrow> MapHasher \<Rightarrow> int64 \<Rightarrow> history \<Rightarrow> (error + SignedMapRoot) \<times> history" where
  "InitMap_tx E tree hasher mapID h =
     (case LatestSignedMapRoot E h of (latestRoot, err) \<Rightarrow>
      (let h1 = h @ [EvLatestSignedMapRoot] in
       case (if err = Some ErrTreeNeedsInit then None else err) of
        Some e \<Rightarrow>
          (Inl (StatusErrorf FailedPrecondition ''LatestSignedMapRoot(): %v'' [ArgErr e]), h1)
      | None \<Rightarrow>
          if GetMapRoot latestRoot \<noteq> None then
            (Inl (StatusErrorf AlreadyExists ''map is already initialised'' []), h1)
          else if Size hasher < 0 then
            (Inl (RuntimePanic ''makeslice: len out of range''), h1)
          else
            (let rootHash = HashEmpty hasher mapID (replicate (nat (Size hasher)) 0)
                              (BitLen hasher)
             in case makeSignedMapRoot E tree (Now E h1) rootHash mapID 0 [] h1 of
                  (Inl e, h2) \<Rightarrow> (Inl (Errorf ''makeSignedMapRoot(): %v'' [ArgErr e]), h2)
                | (Inr rev0Root, h2) \<Rightarrow>
                    (case StoreSignedMapRoot E h2 rev0Root of
                       Some e \<Rightarrow> (Inl e, h2 @ [EvStoreSignedMapRoot rev0Root])
                     | None \<Rightarrow> (Inr rev0Root, h2 @ [EvStoreSignedMapRoot rev0Root])))))"

text \<open>\<open>InitMap\<close> returns the \<open>Created\<close> root of its response.\<close>

definition InitMap :: "env \<Rightarrow> int64 \<Rightarrow> history \<Rightarrow> (error + SignedMapRoot) \<times> history" where
  "InitMap E mapID h =
     (case getTreeAndHasher E mapID optsMapInit h of
        (Inl err, h1) \<Rightarrow>
          (Inl (StatusErrorf FailedPrecondition ''getTreeAndHasher(): %v'' [ArgErr err]), h1)
      | (Inr (tree, hasher), h1) \<Rightarrow>
          ReadWriteTransaction E tree (InitMap_tx E tree hasher mapID) h1)"

section \<open>The load generator: MapBias.choose\<close>

text \<open>
  Go's \<open>int\<close> is a 64-bit word here (as on the 64-bit targets the hammer runs on), so
  the sums and differences of \<open>choose\<close> wrap. A call either returns or panics.
\<close>

datatype 'a outcome = Returns 'a | Panics string

type_synonym MapEntrypointName = string

definition GetLeavesName :: MapEntrypointName where "GetLeavesName = ''GetLeaves''"
definition GetLeavesRevName :: MapEntrypointName where "GetLeavesRevName = ''GetLeavesRev''"
definition SetLeavesName :: MapEntrypointName where "SetLeavesName = ''SetLeaves''"
definition GetSMRName :: MapEntrypointName where "GetSMRName = ''GetSMR''"
definition GetSMRRevName :: MapEntrypointName where "GetSMRRevName = ''GetSMRRev''"

definition mapEntrypoints :: "MapEntrypointName list" where
  "mapEntrypoints = [GetLeavesName, GetLeavesRevName, SetLeavesName, GetSMRName, GetSMRRevName]"

record MapBias =
  Bias :: "MapEntrypointName \<rightharpoonup> 64 word"
  total :: "64 word"
  InvalidChance :: "MapEntrypointName \<rightharpoonup> 64 word"

text \<open>\<open>hb.Bias[ep]\<close>: a missing key of a Go map reads as 0.\<close>

definition bias :: "MapBias \<Rightarrow> MapEntrypointName \<Rightarrow> 64 word" where
  "bias hb ep = (case Bias hb ep of None \<Rightarrow> 0 | Some b \<Rightarrow> b)"

text \<open>
  \<open>r.Intn(n)\<close> panics when \<open>n <= 0\<close> and otherwise returns a number in \<open>[0, n)\<close>. The
  random source is the natural number \<open>r\<close> it draws, reduced into the range.
\<close>

definition Intn :: "nat \<Rightarrow> 64 word \<Rightarrow> 64 word outcome" where
  "Intn r n =
     (if sint n \<le> 0 then Panics ''invalid argument to Intn''
      else Returns (word_of_nat (r mod nat (sint n))))"

text \<open>The loop over \<open>mapEntrypoints\<close> that subtracts the biases from \<open>which\<close>.\<close>

fun choose_loop :: "MapBias \<Rightarrow> 64 word \<Rightarrow> MapEntrypointName list \<Rightarrow> MapEntrypointName outcome" where
  "choose_loop hb which [] = Panics ''random choice out of range''"
| "choose_loop hb which (ep # eps) =
     (let which' = which - bias hb ep in
      if sint which' < 0 then Returns ep else choose_loop hb which' eps)"

text \<open>\<open>MapBias.choose\<close> returns the entrypoint (or panics) and the receiver with its cached
  total (\<open>choose\<close> alone is the binomial coefficient in HOL).\<close>

definition MapBias_choose :: "MapBias \<Rightarrow> nat \<Rightarrow> MapEntrypointName outcome \<times> MapBias" where
  "MapBias_choose hb r =
     (let hb' = (if total hb = 0
                 then hb\<lparr>total := fold (\<lambda>ep t. t + bias hb ep) mapEntrypoints (total hb)\<rparr>
                 else hb)
      in case Intn r (total hb') of
           Panics m \<Rightarrow> (Panics m, hb')
         | Returns which \<Rightarrow> (choose_loop hb' which mapEntrypoints, hb'))"

text \<open>The sum of the five biases, in 64-bit arithmetic.\<close>

definition bias_sum :: "MapBias \<Rightarrow> 64 word" where
  "bias_sum hb = fold (\<lambda>ep t. t + bias hb ep) mapEntrypoints 0"

section \<open>Vocabulary of the properties, and example inputs\<close>

text \<open>
  The definitions below are not part of the server: they name the errors and the events
  that the properties speak of, and they give one concrete instance of every collaborator,
  on which the properties are evaluated.
\<close>

text \<open>Biases for two of the five entrypoints; the total is not yet cached.\<close>

definition example_bias :: MapBias where
  "example_bias = \<lparr>Bias = [GetLeavesName \<mapsto> 3, SetLeavesName \<mapsto> 2], total = 0, InvalidChance = Map.empty\<rparr>"

text \<open>A hasher of one byte, and a leaf as the example storage holds it.\<close>

definition example_hasher :: MapHasher where
  "example_hasher =
     \<lparr>Size = 1, BitLen = 8, HashLeaf = (\<lambda>treeID index v. index @ v),
      HashEmpty = (\<lambda>treeID index height. index)\<rparr>"

definition example_leaf :: MapLeaf where
  "example_leaf = \<lparr>MapLeaf.Index = [1], LeafHash = [1, 5], LeafValue = [5], ExtraData = [9]\<rparr>"

text \<open>The root that the example storage holds: the one stored last.\<close>

fun last_root :: "history \<Rightarrow> SignedMapRoot option" where
  "last_root [] = None"
| "last_root (ev # h) =
     (case last_root h of
        Some r \<Rightarrow> Some r
      | None \<Rightarrow> (case ev of EvStoreSignedMapRoot r \<Rightarrow> Some r | _ \<Rightarrow> None))"

text \<open>The example signer writes the low byte of the revision before the root hash; the
  example decoder reads it back.\<close>

definition example_sign :: "MapRootV1 \<Rightarrow> SignedMapRoot" where
  "example_sign smr =
     \<lparr>SignedMapRoot.MapRoot = Some (ucast (MapRootV1.Revision smr) # RootHash smr),
      Signature = [42]\<rparr>"

definition example_unmarshal :: "bytes option \<Rightarrow> error + MapRootV1" where
  "example_unmarshal b =
     (case b of
        Some (r # hash) \<Rightarrow>
          Inr \<lparr>RootHash = hash, TimestampNanos = 0, Revision = ucast r, Metadata = []\<rparr>
      | _ \<Rightarrow> Inl (Collaborator 1))"

text \<open>
  The example collaborators: every call succeeds; the storage holds \<open>example_leaf\<close> at
  every revision and the signed root that was stored last, it writes at revision 1 and
  reads at revision 0; the siblings of a node are two, the second one shared by all
  nodes.
\<close>

definition example_env :: env where
  "example_env =
     \<lparr>GetTree = (\<lambda>h treeID opts. Inr \<lparr>TreeId = treeID, HashStrategy = 0\<rparr>),
      NewMapHasher = (\<lambda>strategy. Inr example_hasher),
      SnapshotForTree = (\<lambda>h tree. SnapOK),
      BeginTx = (\<lambda>h tree. None),
      LatestSignedMapRoot =
        (\<lambda>h. case last_root h of None \<Rightarrow> (None, Some ErrTreeNeedsInit) | Some r \<Rightarrow> (Some r, None)),
      GetSignedMapRoot =
        (\<lambda>h revision. case last_root h of None \<Rightarrow> (None, Some (Collaborator 2))
                                     | Some r \<Rightarrow> (Some r, None)),
      tx_Get = (\<lambda>h revision indices. Inr (filter (\<lambda>l. MapLeaf.Index l \<in> set indices) [example_leaf])),
      tx_Set = (\<lambda>h index l. None),
      tx_Commit = (\<lambda>h. None),
      WriteRevision = (\<lambda>h. Inr 1),
      ReadRevision = (\<lambda>h. Inr 0),
      GetMerkleNodes = (\<lambda>h revision nids. None),
      StoreSignedMapRoot = (\<lambda>h root. None),
      UnmarshalBinary = example_unmarshal,
      BatchInclusionProof = (\<lambda>h readerRev revision indices.
         Inr (\<lambda>index. if index \<in> set indices then Some [index] else None)),
      NewSparseMerkleTreeWriter = (\<lambda>h treeID revision runner. None),
      SMTSetLeaves = (\<lambda>h hkv. None),
      CalculateRoot = (\<lambda>h. Inr [7]),
      Signer = (\<lambda>h tree. None),
      SignMapRoot = (\<lambda>h smr. Inr (example_sign smr)),
      Now = (\<lambda>h. 0),
      NewNodeIDFromHash = (\<lambda>k. \<lparr>PrefixLenBits = 8, Path = k\<rparr>),
      Siblings = (\<lambda>n. [\<lparr>PrefixLenBits = 8, Path = map (\<lambda>b. b + 1) (Path n)\<rparr>,
                         \<lparr>PrefixLenBits = 1, Path = [1]\<rparr>]),
      AsKey = (\<lambda>n. word_of_int (PrefixLenBits n) # Path n),
      leavesFirst = True,
      schedule = [1, 0, 1]\<rparr>"

text \<open>Requests to the example map, which has the id 7.\<close>

definition example_read :: GetMapLeavesByRevisionRequest where
  "example_read = \<lparr>GetMapLeavesByRevisionRequest.MapId = 7, Index = [[1], [2]], Revision = 0\<rparr>"

text \<open>The error of the three reads by revision for a negative revision.\<close>

definition negative_revision_error :: "int64 \<Rightarrow> error" where
  "negative_revision_error revision =
     Errorf ''map revision %d must be >= 0'' [ArgInt (sint revision)]"

definition example_negative_read :: GetMapLeavesByRevisionRequest where
  "example_negative_read =
     \<lparr>GetMapLeavesByRevisionRequest.MapId = 7, Index = [[1]], Revision = - 1\<rparr>"

definition example_negative_root :: GetSignedMapRootByRevisionRequest where
  "example_negative_root = \<lparr>GetSignedMapRootByRevisionRequest.MapId = 7, Revision = - 1\<rparr>"


definition example_opts :: TrillianMapServerOptions where
  "example_opts = \<lparr>UseSingleTransaction = True, UseLargePreload = False\<rparr>"

definition example_empty_write :: SetMapLeavesRequest where
  "example_empty_write =
     \<lparr>SetMapLeavesRequest.MapId = 7, Leaves = [], Metadata = [3], Revision = 0\<rparr>"


text \<open>The \<open>MapRootV1\<close> that \<open>InitMap\<close> has signed: the hash of the empty tree (over
  \<open>hasher.Size()\<close> zero bytes, at height \<open>hasher.BitLen()\<close>), revision 0, no metadata.\<close>

definition rev0MapRoot :: "MapHasher \<Rightarrow> int64 \<Rightarrow> uint64 \<Rightarrow> MapRootV1" where
  "rev0MapRoot hasher mapID smrTs =
     \<lparr>RootHash = HashEmpty hasher mapID (replicate (nat (Size hasher)) 0) (BitLen hasher),
      TimestampNanos = smrTs, Revision = 0, Metadata = []\<rparr>"

text \<open>The error of \<open>InitMap\<close> for a map that has a root.\<close>

definition already_exists_error :: error where
  "already_exists_error = StatusErrorf AlreadyExists ''map is already initialised'' []"

text \<open>The root of revision 0 of the example map, and the history of the \<open>InitMap\<close> that
  stores it.\<close>

definition example_rev0 :: MapRootV1 where
  "example_rev0 = \<lparr>RootHash = [0], TimestampNanos = 0, Revision = 0, Metadata = []\<rparr>"

definition example_init_history :: history where
  "example_init_history =
     [EvGetTree 7 optsMapInit, EvBeginTx, EvLatestSignedMapRoot, EvSignMapRoot example_rev0,
      EvStoreSignedMapRoot (example_sign example_rev0), EvCommit, EvClose]"


text \<open>The event of reading the target root, and the events of the two fetches in the
  order of the schedule.\<close>

definition root_event :: "int64 \<Rightarrow> event" where
  "root_event revision =
     (if sint revision < 0 then EvLatestSignedMapRoot else EvGetSignedMapRoot revision)"

definition fetch_events :: "bool \<Rightarrow> int64 \<Rightarrow> bytes list \<Rightarrow> history" where
  "fetch_events lf revision indices =
     (if lf then [EvGet revision indices, EvBatchInclusionProof revision revision indices]
      else [EvBatchInclusionProof revision revision indices, EvGet revision indices])"



definition example_response :: GetMapLeavesResponse where
  "example_response =
     \<lparr>MapLeafInclusion =
        [\<lparr>Leaf = Some example_leaf, Inclusion = [[1]]\<rparr>,
         \<lparr>Leaf = Some (emptyLeaf [2]), Inclusion = [[2]]\<rparr>],
      MapRoot = example_sign example_rev0\<rparr>"

definition example_read_history :: history where
  "example_read_history =
     example_init_history @
     [EvGetTree 7 optsMapRead, EvSnapshotForTree, EvLatestSignedMapRoot,
      EvGet 0 [[1], [2]], EvBatchInclusionProof 0 0 [[1], [2]], EvCommit, EvClose]"

text \<open>The calls of the preload step among the events of a history.\<close>

fun is_preload_event :: "event \<Rightarrow> bool" where
  "is_preload_event EvReadRevision = True"
| "is_preload_event (EvGetMerkleNodes revision nids) = True"
| "is_preload_event ev = False"

definition preload_events :: "history \<Rightarrow> history" where
  "preload_events h = filter is_preload_event h"

text \<open>The sibling node ids along the paths of all hashed keys of a batch.\<close>

definition all_siblings :: "env \<Rightarrow> HashKeyValue list \<Rightarrow> NodeID set" where
  "all_siblings E hkv = (\<Union>i \<in> set hkv. set (producer E (HashedKey i)))"

text \<open>A batch of two hashed keys, and the node ids that are preloaded for it.\<close>

definition example_preload_opts :: TrillianMapServerOptions where
  "example_preload_opts = \<lparr>UseSingleTransaction = True, UseLargePreload = True\<rparr>"

definition example_hkv :: "HashKeyValue list" where
  "example_hkv = [\<lparr>HashedKey = [1], HashedValue = [1, 5]\<rparr>,
                  \<lparr>HashedKey = [2], HashedValue = [2, 6]\<rparr>]"

definition example_nids :: "NodeID list" where
  "example_nids = [\<lparr>PrefixLenBits = 8, Path = [3]\<rparr>, \<lparr>PrefixLenBits = 8, Path = [2]\<rparr>,
                   \<lparr>PrefixLenBits = 1, Path = [1]\<rparr>]"

section \<open>Properties of validateIndices\<close>

declare validateIndices_loop.simps [simp del]

lemma passes_Suc:
  "i < p \<Longrightarrow> passes sz f m i p \<Longrightarrow> passes sz f (m(f i \<mapsto> True)) (Suc i) p"
proof -
  assume ip: "i < p" and ps: "passes sz f m i p"
  show ?thesis
    unfolding passes_def
  proof (intro allI impI)
    fix j assume j: "Suc i \<le> j \<and> j < p"
    then have ij: "i \<le> j \<and> j < p" by simp
    from ps ij have a: "int (length (f j)) = sz" "\<not> seen m (f j)"
      and b: "\<forall>k. i \<le> k \<and> k < j \<longrightarrow> f k \<noteq> f j"
      unfolding passes_def by blast+
    from b j have "f i \<noteq> f j" by simp
    with a(2) have "\<not> seen (m(f i \<mapsto> True)) (f j)" by (simp add: seen_def)
    moreover from b have "\<forall>k. Suc i \<le> k \<and> k < j \<longrightarrow> f k \<noteq> f j" by simp
    ultimately show "int (length (f j)) = sz \<and> \<not> seen (m(f i \<mapsto> True)) (f j)
        \<and> (\<forall>k. Suc i \<le> k \<and> k < j \<longrightarrow> f k \<noteq> f j)"
      using a(1) by blast
  qed
qed

lemma loop_skip:
  "i \<le> p \<Longrightarrow> p \<le> n \<Longrightarrow> passes sz f m i p \<Longrightarrow>
   \<exists>m'. validateIndices_loop sz n f m i = validateIndices_loop sz n f m' p
        \<and> (\<forall>x. seen m' x = (seen m x \<or> (\<exists>k. i \<le> k \<and> k < p \<and> f k = x)))"
proof (induction "p - i" arbitrary: i m)
  case 0
  then have "i = p" by simp
  then show ?case by auto
next
  case (Suc d)
  then have ip: "i < p" and in': "i < n" by auto
  from Suc.prems(3) ip have here: "int (length (f i)) = sz" "\<not> seen m (f i)"
    unfolding passes_def by auto
  have step: "validateIndices_loop sz n f m i
                = validateIndices_loop sz n f (m(f i \<mapsto> True)) (Suc i)"
    using in' here by (subst validateIndices_loop.simps) (simp add: Let_def)
  have "d = p - Suc i" using Suc.hyps(2) by simp
  from Suc.hyps(1) [OF this _ Suc.prems(2) passes_Suc [OF ip Suc.prems(3)]] ip
  obtain m' where m': "validateIndices_loop sz n f (m(f i \<mapsto> True)) (Suc i)
                         = validateIndices_loop sz n f m' p"
     "\<forall>x. seen m' x = (seen (m(f i \<mapsto> True)) x \<or> (\<exists>k. Suc i \<le> k \<and> k < p \<and> f k = x))"
    by auto
  have "\<forall>x. seen m' x = (seen m x \<or> (\<exists>k. i \<le> k \<and> k < p \<and> f k = x))"
  proof
    fix x
    have "(\<exists>k. i \<le> k \<and> k < p \<and> f k = x) = (f i = x \<or> (\<exists>k. Suc i \<le> k \<and> k < p \<and> f k = x))"
      using ip by (metis Suc_leI le_eq_less_or_eq Suc_le_eq order_refl le_less)
    then show "seen m' x = (seen m x \<or> (\<exists>k. i \<le> k \<and> k < p \<and> f k = x))"
      using m'(2) by (auto simp: seen_def)
  qed
  with step m'(1) show ?case by auto
qed

lemma loop_all_pass:
  "passes sz f m i n \<Longrightarrow> i \<le> n \<Longrightarrow> validateIndices_loop sz n f m i = None"
  using loop_skip [of i n n sz f m]
  by (auto simp: validateIndices_loop.simps [of _ n _ _ n])

lemma loop_first_offending:
  assumes "i \<le> p" "p < n" "passes sz f m i p"
    and "int (length (f p)) \<noteq> sz \<or> seen m (f p) \<or> (\<exists>k. i \<le> k \<and> k < p \<and> f k = f p)"
  shows "validateIndices_loop sz n f m i =
           Some (if int (length (f p)) \<noteq> sz then wrong_length_error p (int (length (f p))) sz
                 else duplicate_error p)"
proof -
  from loop_skip [of i p n sz f m] assms obtain m' where
    m': "validateIndices_loop sz n f m i = validateIndices_loop sz n f m' p"
        "\<forall>x. seen m' x = (seen m x \<or> (\<exists>k. i \<le> k \<and> k < p \<and> f k = x))"
    by auto
  show ?thesis
    unfolding m'(1) using assms(2,4) m'(2)
    by (subst validateIndices_loop.simps)
       (auto simp: Let_def wrong_length_error_def duplicate_error_def)
qed


lemma offending_iff:
  "j < length xs \<Longrightarrow>
   offending sz xs j = (int (length (xs ! j)) \<noteq> sz \<or> (\<exists>k<j. xs ! k = xs ! j))"
  by (auto simp: offending_def in_set_conv_nth)

lemma passes_iff_no_offending:
  "p \<le> length xs \<Longrightarrow>
   passes sz ((!) xs) Map.empty 0 p = (\<forall>j<p. \<not> offending sz xs j)"
  unfolding passes_def by (auto simp: offending_iff seen_def)

lemma no_offending_iff:
  "(\<forall>j<length xs. \<not> offending sz xs j)
     = ((\<forall>x \<in> set xs. int (length x) = sz) \<and> distinct xs)"
proof -
  have "(\<forall>j<length xs. \<not> offending sz xs j)
      = ((\<forall>j<length xs. int (length (xs ! j)) = sz) \<and> (\<forall>j<length xs. \<forall>k<j. xs ! k \<noteq> xs ! j))"
    by (auto simp: offending_iff)
  also have "(\<forall>j<length xs. int (length (xs ! j)) = sz) = (\<forall>x \<in> set xs. int (length x) = sz)"
    by (simp add: all_set_conv_all_nth)
  also have "(\<forall>j<length xs. \<forall>k<j. xs ! k \<noteq> xs ! j) = distinct xs"
    by (auto simp: distinct_conv_nth) (metis nat_neq_iff)
  finally show ?thesis .
qed

text \<open>
  Claim C1, as amended. Validation returns nil exactly when every index has the length
  \<open>hasher.Size()\<close> and the indices are pairwise distinct. Otherwise it fails with an
  \<open>InvalidArgument\<close> status that names the first offending position \<open>p\<close>, the first
  one whose index has the wrong length or repeats an earlier index: the wrong-length
  error when the index at \<open>p\<close> has the wrong length, the duplicate error otherwise. So a
  duplicate is reported at its second occurrence only when no earlier position offends,
  and a wrong length at its first occurrence only when no duplicate stands before it.
\<close>

theorem validateIndices_first_offending:
  "(validateIndices sz (length xs) ((!) xs) = None
      \<longleftrightarrow> (\<forall>x \<in> set xs. int (length x) = sz) \<and> distinct xs)
   \<and> (\<forall>p<length xs. offending sz xs p \<and> (\<forall>j<p. \<not> offending sz xs j) \<longrightarrow>
          validateIndices sz (length xs) ((!) xs)
            = Some (if int (length (xs ! p)) \<noteq> sz
                    then wrong_length_error p (int (length (xs ! p))) sz
                    else duplicate_error p)
          \<and> status_code (if int (length (xs ! p)) \<noteq> sz
                    then wrong_length_error p (int (length (xs ! p))) sz
                    else duplicate_error p) = InvalidArgument)"
proof -
  let ?v = "validateIndices sz (length xs) ((!) xs)"
  have first: "?v = Some (if int (length (xs ! p)) \<noteq> sz
                    then wrong_length_error p (int (length (xs ! p))) sz
                    else duplicate_error p)"
    if p: "p < length xs" and off: "offending sz xs p" and before: "\<forall>j<p. \<not> offending sz xs j"
    for p
  proof -
    have "passes sz ((!) xs) Map.empty 0 p"
      using p before by (simp add: passes_iff_no_offending)
    moreover have "int (length (xs ! p)) \<noteq> sz \<or> seen Map.empty (xs ! p)
        \<or> (\<exists>k. 0 \<le> k \<and> k < p \<and> xs ! k = xs ! p)"
      using off p by (auto simp: offending_iff)
    ultimately show ?thesis
      unfolding validateIndices_def using p
      by (intro loop_first_offending) auto
  qed
  have none: "?v = None \<longleftrightarrow> (\<forall>j<length xs. \<not> offending sz xs j)"
  proof
    assume v: "?v = None"
    show "\<forall>j<length xs. \<not> offending sz xs j"
    proof (rule ccontr)
      assume "\<not> (\<forall>j<length xs. \<not> offending sz xs j)"
      then have "\<exists>p. p < length xs \<and> offending sz xs p" by blast
      then obtain p where "p < length xs \<and> offending sz xs p"
         and least: "\<forall>j<p. \<not> (j < length xs \<and> offending sz xs j)"
        using exists_least_iff [of "\<lambda>p. p < length xs \<and> offending sz xs p"] by blast
      then have "p < length xs" "offending sz xs p" "\<forall>j<p. \<not> offending sz xs j"
        by auto
      from first [OF this] v show False by simp
    qed
  next
    assume "\<forall>j<length xs. \<not> offending sz xs j"
    then have "passes sz ((!) xs) Map.empty 0 (length xs)"
      by (simp add: passes_iff_no_offending)
    then show "?v = None"
      unfolding validateIndices_def by (intro loop_all_pass) auto
  qed
  have code: "status_code (if b then wrong_length_error p g w else duplicate_error p)
                = InvalidArgument" for b p g w
    by (simp add: wrong_length_error_def duplicate_error_def)
  show ?thesis
    using first none code by (simp add: no_offending_iff)
qed

text \<open>The theorem at the request \<open>[[1], [2], [2]]\<close> with indices of one byte: the duplicate is
  reported at position 2; and the request \<open>[[1], [2]]\<close> is accepted.\<close>

theorem validateIndices_first_offending_witness:
  "validateIndices 1 (length [[1], [2], [2::8 word]]) ((!) [[1], [2], [2]]) = Some (duplicate_error 2)
   \<and> validateIndices 1 (length [[1], [2::8 word]]) ((!) [[1], [2]]) = None
   \<and> offending 1 [[1], [2], [2]] 2 \<and> \<not> offending 1 [[1], [2], [2]] 0
   \<and> \<not> offending 1 [[1], [2], [2]] 1"
proof -
  have a: "offending 1 [[1], [2], [2]] 2" "\<not> offending 1 [[1], [2], [2]] 0"
       "\<not> offending 1 [[1], [2], [2]] 1"
    by (simp_all add: offending_def)
  then have b: "\<forall>j<2. \<not> offending 1 [[1], [2], [2]] j"
    by (simp add: less_Suc_eq numeral_2_eq_2)
  have c: "(2::nat) < length [[1], [2], [2::8 word]]" by simp
  note t = validateIndices_first_offending [of 1 "[[1], [2], [2]]", THEN conjunct2, rule_format, of 2]
  from t c a(1) b
  have "validateIndices 1 (length [[1], [2], [2::8 word]]) ((!) [[1], [2], [2]])
          = Some (if int (length ([[1], [2], [2::8 word]] ! 2)) \<noteq> 1
                  then wrong_length_error 2 (int (length ([[1], [2], [2::8 word]] ! 2))) 1
                  else duplicate_error 2)"
    by blast
  then have "validateIndices 1 (length [[1], [2], [2::8 word]]) ((!) [[1], [2], [2]])
          = Some (duplicate_error 2)"
    by simp
  moreover from validateIndices_first_offending [of 1 "[[1], [2]]"]
  have "validateIndices 1 (length [[1], [2::8 word]]) ((!) [[1], [2]]) = None"
    by simp
  ultimately show ?thesis using a by blast
qed

text \<open>
  Claim C1 as it was stated fails where both kinds of offence meet. The request
  \<open>[[], [7], [7]]\<close> contains a duplicated index, whose second occurrence is at position 2,
  and validation names position 0 (wrong length); the request \<open>[[7], [7], []]\<close> contains
  an index of the wrong length, at position 2 only, and validation names position 1
  (duplicate).
\<close>

theorem validateIndices_mixed_counterexample:
  "validateIndices 1 (length [[], [7], [7::8 word]]) ((!) [[], [7], [7]])
     = Some (wrong_length_error 0 0 1)
   \<and> validateIndices 1 (length [[7], [7], []::8 word list]) ((!) [[7], [7], []])
     = Some (duplicate_error 1)"
  by (simp add: validateIndices_def validateIndices_loop.simps wrong_length_error_def
      duplicate_error_def seen_def)

lemma validateIndices_empty: "validateIndices sz 0 f = None"
  by (simp add: validateIndices_def validateIndices_loop.simps)

section \<open>Properties of MapBias.choose\<close>

lemma fold_bias_sum:
  "fold (\<lambda>ep t. t + bias hb ep) eps a = a + sum_list (map (bias hb) eps)"
  by (induction eps arbitrary: a) (simp_all add: add.assoc)

lemma sint_diff_in_range:
  fixes a b :: "64 word"
  assumes "0 \<le> sint a" "sint a < sint b"
  shows "sint (a - b) = sint a - sint b"
proof -
  have b: "sint b < 2 ^ 63" using sint_lt [of b] by simp
  have "sint (a - b) = signed_take_bit 63 (sint a - sint b)"
    by (simp add: sint_word_ariths)
  also have "\<dots> = sint a - sint b"
    using assms b by (intro signed_take_bit_int_eq_self) auto
  finally show ?thesis .
qed

lemma choose_loop_returns:
  "0 \<le> sint which \<Longrightarrow> sint (which - sum_list (map (bias hb) eps)) < 0 \<Longrightarrow>
   \<exists>ep \<in> set eps. choose_loop hb which eps = Returns ep"
proof (induction eps arbitrary: which)
  case Nil
  then show ?case by simp
next
  case (Cons ep eps)
  show ?case
  proof (cases "sint (which - bias hb ep) < 0")
    case True
    then show ?thesis by simp
  next
    case False
    have "sint (which - bias hb ep - sum_list (map (bias hb) eps)) < 0"
      using Cons.prems(2) by (simp add: diff_diff_eq)
    with False Cons.IH [of "which - bias hb ep"] show ?thesis
      by (auto simp: Let_def)
  qed
qed

lemma Intn_range:
  assumes "0 < sint n"
  shows "\<exists>w. Intn r n = Returns w \<and> 0 \<le> sint w \<and> sint w < sint n"
proof -
  let ?k = "r mod nat (sint n)"
  have "?k < nat (sint n)" using assms by simp
  then have "int ?k < int (nat (sint n))" by (simp only: of_nat_less_iff)
  then have k: "int ?k < sint n" using assms by simp
  have n: "sint n < 2 ^ 63" using sint_lt [of n] by simp
  have "sint (word_of_nat ?k :: 64 word) = signed_take_bit 63 (int ?k)"
    by (simp add: signed_of_nat)
  also have "\<dots> = int ?k"
    using k n by (intro signed_take_bit_int_eq_self) auto
  finally have "sint (word_of_nat ?k :: 64 word) = int ?k" .
  with k assms show ?thesis by (simp add: Intn_def)
qed

text \<open>
  Claim C9. When the five biases sum (in 64-bit arithmetic) to a positive total, and the
  cached \<open>total\<close> is still 0 or is that sum, then for every random draw \<open>choose\<close> returns
  one of the five entrypoints: neither \<open>Intn\<close> nor the "random choice out of range" branch
  panics. The receiver is left with the sum as its total.
\<close>

theorem choose_returns_entrypoint:
  assumes "total hb = 0 \<or> total hb = bias_sum hb" and "0 < sint (bias_sum hb)"
  shows "\<exists>ep \<in> set mapEntrypoints.
           MapBias_choose hb r = (Returns ep, hb\<lparr>total := bias_sum hb\<rparr>)"
proof -
  let ?hb' = "hb\<lparr>total := bias_sum hb\<rparr>"
  have hb': "(if total hb = 0
              then hb\<lparr>total := fold (\<lambda>ep t. t + bias hb ep) mapEntrypoints (total hb)\<rparr>
              else hb) = ?hb'"
    using assms(1) by (auto simp: bias_sum_def)
  have bias': "\<And>t. bias (hb\<lparr>total := t\<rparr>) = bias hb"
    by (rule ext) (simp add: bias_def)
  have sum: "bias_sum hb = sum_list (map (bias hb) mapEntrypoints)"
    by (simp add: bias_sum_def fold_bias_sum)
  from Intn_range [OF assms(2), of r] obtain w where
    w: "Intn r (bias_sum hb) = Returns w" "0 \<le> sint w" "sint w < sint (bias_sum hb)"
    by blast
  have "sint (w - bias_sum hb) < 0"
    using w by (simp add: sint_diff_in_range)
  then have "sint (w - sum_list (map (bias ?hb') mapEntrypoints)) < 0"
    by (simp add: bias' sum)
  from choose_loop_returns [OF w(2) this] obtain ep where
    "ep \<in> set mapEntrypoints" "choose_loop ?hb' w mapEntrypoints = Returns ep"
    by blast
  then show ?thesis
    unfolding MapBias_choose_def hb' Let_def using w(1) by auto
qed

lemma example_bias_sum: "bias_sum example_bias = 5"
  by (simp add: bias_sum_def example_bias_def mapEntrypoints_def bias_def GetLeavesName_def
      GetLeavesRevName_def SetLeavesName_def GetSMRName_def GetSMRRevName_def)

text \<open>The theorem at the biases \<open>GetLeaves \<mapsto> 3, SetLeaves \<mapsto> 2\<close> and the draw 4.\<close>

theorem choose_returns_entrypoint_witness:
  "(total example_bias = 0 \<or> total example_bias = bias_sum example_bias)
   \<and> 0 < sint (bias_sum example_bias)
   \<and> (\<exists>ep \<in> set mapEntrypoints.
         MapBias_choose example_bias 4 = (Returns ep, example_bias\<lparr>total := bias_sum example_bias\<rparr>))"
proof -
  have t: "total example_bias = 0" by (simp add: example_bias_def)
  have s: "0 < sint (bias_sum example_bias)" by (simp add: example_bias_sum)
  from choose_returns_entrypoint [of example_bias 4] t s show ?thesis by blast
qed

section \<open>Properties of the reads without proofs\<close>

lemmas splits = if_splits sum.splits option.splits prod.splits snapshot_result.splits

text \<open>
  Claim C6. Every leaf of a successful \<open>GetLeavesByRevisionNoProof\<close> response has an empty
  \<open>LeafHash\<close>, whatever hash the storage returned with it; the response is the list that
  \<open>tx.Get\<close> returned for the requested revision and indices, in its order, with only that
  field changed: index, value and extra data are as stored.
\<close>

theorem noproof_strips_leaf_hash:
  assumes "GetLeavesByRevisionNoProof E req h = (Inr leaves, h')"
  shows "(\<forall>l \<in> set leaves. LeafHash l = [])
       \<and> (\<exists>stored. tx_Get E (h @ [EvGetTree (GetMapLeavesByRevisionRequest.MapId req) optsMapRead,
                                  EvSnapshotForTree])
                      (GetMapLeavesByRevisionRequest.Revision req)
                      (GetMapLeavesByRevisionRequest.Index req) = Inr stored
            \<and> leaves = map (\<lambda>l. l\<lparr>LeafHash := []\<rparr>) stored
            \<and> map MapLeaf.Index leaves = map MapLeaf.Index stored
            \<and> map LeafValue leaves = map LeafValue stored
            \<and> map ExtraData leaves = map ExtraData stored)"
  using assms
  by (auto simp: GetLeavesByRevisionNoProof_def Let_def getTreeAndHasher_def
      snapshotForTree_def split: splits)

lemma example_noproof:
  "GetLeavesByRevisionNoProof example_env example_read []
     = (Inr [example_leaf\<lparr>LeafHash := []\<rparr>],
        [EvGetTree 7 optsMapRead, EvSnapshotForTree, EvGet 0 [[1], [2]], EvClose])"
  by (simp add: GetLeavesByRevisionNoProof_def Let_def getTreeAndHasher_def
      snapshotForTree_def example_env_def example_read_def example_hasher_def example_leaf_def
      validateIndices_def validateIndices_loop.simps seen_def)

text \<open>
  The theorem at the example storage, which holds a leaf at index \<open>[1]\<close> with the hash
  \<open>[1, 5]\<close>: the leaf comes back with an empty hash.
\<close>

theorem noproof_strips_leaf_hash_witness:
  "GetLeavesByRevisionNoProof example_env example_read []
     = (Inr [example_leaf\<lparr>LeafHash := []\<rparr>],
        [EvGetTree 7 optsMapRead, EvSnapshotForTree, EvGet 0 [[1], [2]], EvClose])
   \<and> LeafHash example_leaf = [1, 5]
   \<and> (\<exists>stored. tx_Get example_env [EvGetTree 7 optsMapRead, EvSnapshotForTree] 0 [[1], [2]] = Inr stored
         \<and> [example_leaf\<lparr>LeafHash := []\<rparr>] = map (\<lambda>l. l\<lparr>LeafHash := []\<rparr>) stored)"
  using noproof_strips_leaf_hash [OF example_noproof] example_noproof
  by (auto simp: example_read_def example_leaf_def)

section \<open>Negative revisions\<close>

text \<open>
  Claim C5, as amended. \<open>GetLeavesByRevision\<close>, \<open>GetLeavesByRevisionNoProof\<close> and
  \<open>GetSignedMapRootByRevision\<close> fail on a negative revision before any call to the admin
  store or the storage (the history is unchanged). The error is made by \<open>fmt.Errorf\<close>: it
  carries no status, so its code is \<open>Unknown\<close>.
\<close>

theorem negative_revision_fails_first:
  "(sint (GetMapLeavesByRevisionRequest.Revision req) < 0 \<longrightarrow>
      GetLeavesByRevision E req h
        = (Inl (negative_revision_error (GetMapLeavesByRevisionRequest.Revision req)), h)
    \<and> GetLeavesByRevisionNoProof E req h
        = (Inl (negative_revision_error (GetMapLeavesByRevisionRequest.Revision req)), h))
   \<and> (sint (GetSignedMapRootByRevisionRequest.Revision req') < 0 \<longrightarrow>
      GetSignedMapRootByRevision E req' h
        = (Inl (negative_revision_error (GetSignedMapRootByRevisionRequest.Revision req')), h))
   \<and> status_code (negative_revision_error revision) = Unknown"
  by (simp add: GetLeavesByRevision_def GetLeavesByRevisionNoProof_def
      GetSignedMapRootByRevision_def negative_revision_error_def Let_def)

text \<open>
  The theorem at the revision \<open>-1\<close>.
\<close>

theorem negative_revision_fails_first_witness:
  "sint (GetMapLeavesByRevisionRequest.Revision example_negative_read) < 0
   \<and> sint (GetSignedMapRootByRevisionRequest.Revision example_negative_root) < 0
   \<and> GetLeavesByRevision example_env example_negative_read []
        = (Inl (negative_revision_error (- 1)), [])
   \<and> GetLeavesByRevisionNoProof example_env example_negative_read []
        = (Inl (negative_revision_error (- 1)), [])
   \<and> GetSignedMapRootByRevision example_env example_negative_root []
        = (Inl (negative_revision_error (- 1)), [])"
proof -
  have a: "sint (GetMapLeavesByRevisionRequest.Revision example_negative_read) < 0"
    by (simp add: example_negative_read_def)
  have b: "sint (GetSignedMapRootByRevisionRequest.Revision example_negative_root) < 0"
    by (simp add: example_negative_root_def)
  from negative_revision_fails_first
         [of example_negative_read example_env "[]" example_negative_root] a b
  show ?thesis
    by (simp add: example_negative_read_def example_negative_root_def)
qed

text \<open>
  Claim C5 as it was stated fails: the error that \<open>GetLeavesByRevision\<close> returns for the
  revision \<open>-1\<close> does not have the code \<open>InvalidArgument\<close>.
\<close>

theorem negative_revision_kind_counterexample:
  "GetLeavesByRevision example_env example_negative_read []
     = (Inl (Errorf ''map revision %d must be >= 0'' [ArgInt (- 1)]), [])
   \<and> status_code (Errorf ''map revision %d must be >= 0'' [ArgInt (- 1)]) \<noteq> InvalidArgument"
  by (simp add: GetLeavesByRevision_def example_negative_read_def)

section \<open>Empty batches\<close>


lemma makeSignedMapRoot_extends:
  "makeSignedMapRoot E tree smrTs rootHash mapID revision meta h = (x, h5) \<Longrightarrow> \<exists>t. h5 = h @ t"
  by (auto simp: makeSignedMapRoot_def Let_def split: option.splits sum.splits)

lemma doPreload_extends:
  "doPreload E treeDepth hkv h = (r, h1) \<Longrightarrow> \<exists>t. h1 = h @ t"
  by (auto simp: doPreload_def Let_def split: sum.splits)

lemma updateTree_extends:
  "\<exists>t. snd (updateTree E opts tree hasher hkv metadata rev' h) = h @ t"
proof -
  obtain r h1 where p:
    "(if UseSingleTransaction opts \<and> UseLargePreload opts
      then doPreload E (BitLen hasher) hkv h else (None, h)) = (r, h1)"
    by (cases "if UseSingleTransaction opts \<and> UseLargePreload opts
               then doPreload E (BitLen hasher) hkv h else (None, h)")
  then have "\<exists>t. h1 = h @ t"
    by (auto dest: doPreload_extends split: if_splits)
  then obtain t1 where h1: "h1 = h @ t1" by blast
  have "\<exists>t. snd (updateTree E opts tree hasher hkv metadata rev' h) = h1 @ t"
    unfolding updateTree_def Let_def p
    by (auto split: option.splits sum.splits prod.splits dest!: makeSignedMapRoot_extends)
  then show ?thesis unfolding h1 by auto
qed

lemma empty_batch_reaches_writer:
  assumes "BeginTx E h1 tree = None"
  shows "\<exists>t. snd (ReadWriteTransaction E tree
                  (SetLeaves_tx E opts tree hasher [] hkv metadata assertRev) h1)
              = h1 @ [EvBeginTx, EvWriteRevision] @ t"
proof -
  let ?h = "h1 @ [EvBeginTx]"
  obtain x h2 where tx: "SetLeaves_tx E opts tree hasher [] hkv metadata assertRev ?h = (x, h2)"
    by (cases "SetLeaves_tx E opts tree hasher [] hkv metadata assertRev ?h")
  have "\<exists>t. h2 = ?h @ EvWriteRevision # t"
  proof (cases "getWriteRevision E assertRev ?h")
    case (Pair r hw)
    then have hw: "hw = ?h @ [EvWriteRevision]"
      by (auto simp: getWriteRevision_def split: sum.splits if_splits)
    show ?thesis
    proof (cases r)
      case (Inl err)
      with Pair tx hw have "h2 = (h1 @ [EvBeginTx]) @ EvWriteRevision # []"
        by (auto simp: SetLeaves_tx_def)
      then show ?thesis by (rule exI)
    next
      case (Inr writeRev)
      with Pair tx have "h2 = snd (updateTree E opts tree hasher hkv metadata writeRev hw)"
        by (simp add: SetLeaves_tx_def)
      with updateTree_extends [of E opts tree hasher hkv metadata writeRev hw] hw
      show ?thesis by auto
    qed
  qed
  then obtain t where "h2 = ?h @ EvWriteRevision # t" by blast
  with assms tx show ?thesis
    by (auto simp: ReadWriteTransaction_def split: sum.splits option.splits)
qed

text \<open>
  Claim C10. A \<open>SetLeaves\<close> request without leaves is not rejected: \<open>validateIndices\<close>
  returns nil for zero indices, and once the tree and its hasher are found the request
  goes on to the read-write transaction with an empty batch, as any valid batch does; when
  the transaction opens, its write revision is asked for next.
\<close>

theorem empty_batch_is_written:
  assumes "Leaves req = []"
    and "getTreeAndHasher E (SetMapLeavesRequest.MapId req) optsMapWrite h = (Inr (tree, hasher), h1)"
  shows "validateIndices (Size hasher) (length (Leaves req)) (\<lambda>i. MapLeaf.Index (Leaves req ! i)) = None
       \<and> SetLeaves E opts req h
           = ReadWriteTransaction E tree
               (SetLeaves_tx E opts tree hasher [] [] (SetMapLeavesRequest.Metadata req)
                  (SetMapLeavesRequest.Revision req)) h1
       \<and> (BeginTx E h1 tree = None
            \<longrightarrow> (\<exists>t. snd (SetLeaves E opts req h) = h1 @ [EvBeginTx, EvWriteRevision] @ t))"
proof -
  have run: "SetLeaves E opts req h
           = ReadWriteTransaction E tree
               (SetLeaves_tx E opts tree hasher [] [] (SetMapLeavesRequest.Metadata req)
                  (SetMapLeavesRequest.Revision req)) h1"
    using assms by (simp add: SetLeaves_def validateIndices_empty)
  have "\<exists>t. snd (SetLeaves E opts req h) = h1 @ [EvBeginTx, EvWriteRevision] @ t"
    if "BeginTx E h1 tree = None"
    unfolding run by (rule empty_batch_reaches_writer [OF that])
  with run assms(1) show ?thesis
    by (simp add: validateIndices_empty)
qed

lemma example_getTreeAndHasher:
  "getTreeAndHasher example_env treeID opts h
     = (Inr (\<lparr>TreeId = treeID, HashStrategy = 0\<rparr>, example_hasher), h @ [EvGetTree treeID opts])"
  by (simp add: getTreeAndHasher_def example_env_def)

lemma example_empty_write_run:
  "ReadWriteTransaction example_env \<lparr>TreeId = 7, HashStrategy = 0\<rparr>
     (SetLeaves_tx example_env example_opts \<lparr>TreeId = 7, HashStrategy = 0\<rparr> example_hasher [] []
        [3] 0) [EvGetTree 7 optsMapWrite]
   = (Inr (example_sign \<lparr>RootHash = [7], TimestampNanos = 0, Revision = 1, Metadata = [3]\<rparr>),
      [EvGetTree 7 optsMapWrite, EvBeginTx, EvWriteRevision,
       EvNewSparseMerkleTreeWriter 7 1 singleTXRunner, EvSMTSetLeaves [], EvCalculateRoot,
       EvSignMapRoot \<lparr>RootHash = [7], TimestampNanos = 0, Revision = 1, Metadata = [3]\<rparr>,
       EvStoreSignedMapRoot
         (example_sign \<lparr>RootHash = [7], TimestampNanos = 0, Revision = 1, Metadata = [3]\<rparr>),
       EvCommit, EvClose])"
  by (simp add: ReadWriteTransaction_def SetLeaves_tx_def getWriteRevision_def updateTree_def
      makeSignedMapRoot_def newTXRunner_def example_env_def example_opts_def Let_def)

text \<open>
  The theorem at the example storage: the empty batch is written at revision 1, its root
  signed, stored and committed.
\<close>

theorem empty_batch_is_written_witness:
  "Leaves example_empty_write = []
   \<and> SetLeaves example_env example_opts example_empty_write []
     = (Inr (example_sign \<lparr>RootHash = [7], TimestampNanos = 0, Revision = 1, Metadata = [3]\<rparr>),
      [EvGetTree 7 optsMapWrite, EvBeginTx, EvWriteRevision,
       EvNewSparseMerkleTreeWriter 7 1 singleTXRunner, EvSMTSetLeaves [], EvCalculateRoot,
       EvSignMapRoot \<lparr>RootHash = [7], TimestampNanos = 0, Revision = 1, Metadata = [3]\<rparr>,
       EvStoreSignedMapRoot
         (example_sign \<lparr>RootHash = [7], TimestampNanos = 0, Revision = 1, Metadata = [3]\<rparr>),
       EvCommit, EvClose])"
proof -
  have a: "Leaves example_empty_write = []" by (simp add: example_empty_write_def)
  have b: "getTreeAndHasher example_env (SetMapLeavesRequest.MapId example_empty_write)
             optsMapWrite []
           = (Inr (\<lparr>TreeId = 7, HashStrategy = 0\<rparr>, example_hasher), [EvGetTree 7 optsMapWrite])"
    by (simp add: example_getTreeAndHasher example_empty_write_def)
  from empty_batch_is_written [OF a b, of example_opts] a example_empty_write_run
  show ?thesis by (simp add: example_empty_write_def)
qed

section \<open>The expected revision of a write\<close>




section \<open>InitMap\<close>

text \<open>
  Claim C3. Once the tree and its hasher are found and the transaction is open: when the
  storage already holds a signed root with a non-nil \<open>MapRoot\<close>, \<open>InitMap\<close> fails with an
  \<open>AlreadyExists\<close> status and stores nothing; when it holds none, and the signer and the
  storage succeed, \<open>InitMap\<close> stores and returns the root that the signer made of a
  \<open>MapRootV1\<close> with revision 0, empty metadata and the root hash
  \<open>HashEmpty(mapID, zeroes of length Size(), BitLen())\<close>, where \<open>mapID\<close> is the id of the
  request, by which the tree was found.
\<close>

theorem InitMap_once:
  "(getTreeAndHasher E mapID optsMapInit h = (Inr (tree, hasher), h1)
      \<and> BeginTx E h1 tree = None
      \<and> LatestSignedMapRoot E (h1 @ [EvBeginTx]) = (Some present, err)
      \<and> (err = None \<or> err = Some ErrTreeNeedsInit)
      \<and> SignedMapRoot.MapRoot present \<noteq> None
    \<longrightarrow> InitMap E mapID h
          = (Inl already_exists_error, h1 @ [EvBeginTx, EvLatestSignedMapRoot, EvClose])
        \<and> status_code already_exists_error = AlreadyExists)
   \<and> (getTreeAndHasher E mapID optsMapInit h = (Inr (tree, hasher), h1)
      \<and> BeginTx E h1 tree = None
      \<and> LatestSignedMapRoot E (h1 @ [EvBeginTx]) = (latest, err)
      \<and> (err = None \<or> err = Some ErrTreeNeedsInit)
      \<and> GetMapRoot latest = None
      \<and> 0 \<le> Size hasher
      \<and> h2 = h1 @ [EvBeginTx, EvLatestSignedMapRoot]
      \<and> smr = rev0MapRoot hasher mapID (Now E h2)
      \<and> Signer E h2 tree = None
      \<and> SignMapRoot E h2 smr = Inr rev0Root
      \<and> StoreSignedMapRoot E (h2 @ [EvSignMapRoot smr]) rev0Root = None
      \<and> tx_Commit E (h2 @ [EvSignMapRoot smr, EvStoreSignedMapRoot rev0Root]) = None
    \<longrightarrow> InitMap E mapID h
          = (Inr rev0Root,
             h2 @ [EvSignMapRoot smr, EvStoreSignedMapRoot rev0Root, EvCommit, EvClose])
        \<and> MapRootV1.Revision smr = 0 \<and> MapRootV1.Metadata smr = []
        \<and> RootHash smr
            = HashEmpty hasher mapID (replicate (nat (Size hasher)) 0) (BitLen hasher))"
proof (intro conjI impI)
  assume a: "getTreeAndHasher E mapID optsMapInit h = (Inr (tree, hasher), h1)
      \<and> BeginTx E h1 tree = None
      \<and> LatestSignedMapRoot E (h1 @ [EvBeginTx]) = (Some present, err)
      \<and> (err = None \<or> err = Some ErrTreeNeedsInit)
      \<and> SignedMapRoot.MapRoot present \<noteq> None"
  then show "InitMap E mapID h
          = (Inl already_exists_error, h1 @ [EvBeginTx, EvLatestSignedMapRoot, EvClose])"
    by (auto simp: InitMap_def ReadWriteTransaction_def InitMap_tx_def GetMapRoot_def
        already_exists_error_def Let_def)
next
  show "status_code already_exists_error = AlreadyExists"
    by (simp add: already_exists_error_def)
next
  assume b: "getTreeAndHasher E mapID optsMapInit h = (Inr (tree, hasher), h1)
      \<and> BeginTx E h1 tree = None
      \<and> LatestSignedMapRoot E (h1 @ [EvBeginTx]) = (latest, err)
      \<and> (err = None \<or> err = Some ErrTreeNeedsInit)
      \<and> GetMapRoot latest = None
      \<and> 0 \<le> Size hasher
      \<and> h2 = h1 @ [EvBeginTx, EvLatestSignedMapRoot]
      \<and> smr = rev0MapRoot hasher mapID (Now E h2)
      \<and> Signer E h2 tree = None
      \<and> SignMapRoot E h2 smr = Inr rev0Root
      \<and> StoreSignedMapRoot E (h2 @ [EvSignMapRoot smr]) rev0Root = None
      \<and> tx_Commit E (h2 @ [EvSignMapRoot smr, EvStoreSignedMapRoot rev0Root]) = None"
  then show "InitMap E mapID h
          = (Inr rev0Root,
             h2 @ [EvSignMapRoot smr, EvStoreSignedMapRoot rev0Root, EvCommit, EvClose])"
    by (auto simp: InitMap_def ReadWriteTransaction_def InitMap_tx_def
        makeSignedMapRoot_def rev0MapRoot_def Let_def)
  from b show "MapRootV1.Revision smr = 0" "MapRootV1.Metadata smr = []"
    "RootHash smr = HashEmpty hasher mapID (replicate (nat (Size hasher)) 0) (BitLen hasher)"
    by (simp_all add: rev0MapRoot_def)
qed

lemma example_env_simps:
  "BeginTx example_env h tree = None"
  "SnapshotForTree example_env h tree = SnapOK"
  "LatestSignedMapRoot example_env h
     = (case last_root h of None \<Rightarrow> (None, Some ErrTreeNeedsInit) | Some r \<Rightarrow> (Some r, None))"
  "GetSignedMapRoot example_env h revision
     = (case last_root h of None \<Rightarrow> (None, Some (Collaborator 2)) | Some r \<Rightarrow> (Some r, None))"
  "tx_Get example_env h revision indices
     = Inr (filter (\<lambda>l. MapLeaf.Index l \<in> set indices) [example_leaf])"
  "tx_Set example_env h index l = None"
  "tx_Commit example_env h = None"
  "WriteRevision example_env h = Inr 1"
  "ReadRevision example_env h = Inr 0"
  "GetMerkleNodes example_env h revision nids = None"
  "StoreSignedMapRoot example_env h root = None"
  "UnmarshalBinary example_env = example_unmarshal"
  "BatchInclusionProof example_env h readerRev revision indices
     = Inr (\<lambda>index. if index \<in> set indices then Some [index] else None)"
  "NewSparseMerkleTreeWriter example_env h treeID revision runner = None"
  "SMTSetLeaves example_env h hkv = None"
  "CalculateRoot example_env h = Inr [7]"
  "Signer example_env h tree = None"
  "SignMapRoot example_env h smr = Inr (example_sign smr)"
  "Now example_env h = 0"
  "leavesFirst example_env = True"
  "schedule example_env = [1, 0, 1]"
  by (simp_all add: example_env_def)

lemma example_hasher_simps:
  "Size example_hasher = 1" "BitLen example_hasher = 8"
  "HashLeaf example_hasher treeID index v = index @ v"
  "HashEmpty example_hasher treeID index height = index"
  by (simp_all add: example_hasher_def)

lemma example_rev0MapRoot: "rev0MapRoot example_hasher 7 0 = example_rev0"
  by (simp add: rev0MapRoot_def example_hasher_def example_rev0_def)

lemma example_last_root:
  "last_root (example_init_history @ [EvGetTree 7 optsMapInit, EvBeginTx])
     = Some (example_sign example_rev0)"
  by (simp add: example_init_history_def)

text \<open>
  The theorem, twice, at the example storage: the first \<open>InitMap\<close> stores the root of
  revision 0, and the second one, run after it, fails with \<open>AlreadyExists\<close>.
\<close>

theorem InitMap_once_witness:
  "InitMap example_env 7 [] = (Inr (example_sign example_rev0), example_init_history)
   \<and> MapRootV1.Revision example_rev0 = 0
   \<and> InitMap example_env 7 example_init_history
       = (Inl already_exists_error,
          example_init_history @ [EvGetTree 7 optsMapInit, EvBeginTx, EvLatestSignedMapRoot, EvClose])"
proof -
  let ?tree = "\<lparr>TreeId = 7, HashStrategy = 0\<rparr>"
  have first: "InitMap example_env 7 [] = (Inr (example_sign example_rev0), example_init_history)"
    using InitMap_once [where E = example_env and mapID = 7 and h = "[]" and tree = ?tree
        and hasher = example_hasher and ?h1.0 = "[EvGetTree 7 optsMapInit]"
        and latest = None and err = "Some ErrTreeNeedsInit"
        and ?h2.0 = "[EvGetTree 7 optsMapInit, EvBeginTx, EvLatestSignedMapRoot]"
        and smr = example_rev0 and ?rev0Root.0 = "example_sign example_rev0"]
    by (simp add: example_getTreeAndHasher example_rev0MapRoot example_init_history_def
        example_env_simps example_hasher_simps GetMapRoot_def)
  have second: "InitMap example_env 7 example_init_history
       = (Inl already_exists_error,
          example_init_history @ [EvGetTree 7 optsMapInit, EvBeginTx, EvLatestSignedMapRoot, EvClose])"
    using InitMap_once [where E = example_env and mapID = 7 and h = example_init_history
        and tree = ?tree and hasher = example_hasher
        and ?h1.0 = "example_init_history @ [EvGetTree 7 optsMapInit]"
        and present = "example_sign example_rev0" and err = None]
      example_last_root
    by (simp add: example_getTreeAndHasher example_env_simps example_sign_def)
  from first second show ?thesis by (simp add: example_rev0_def)
qed

section \<open>The leaves of a read with proofs\<close>







section \<open>Reads with proofs\<close>

lemma getLeavesByRevision_success:
  assumes "getLeavesByRevision E mapID indices revision h = (Inr resp, h')"
  shows "\<exists>mapRoot m proofs.
      (if sint revision < 0
       then LatestSignedMapRoot E (h @ [EvGetTree mapID optsMapRead, EvSnapshotForTree])
       else GetSignedMapRoot E (h @ [EvGetTree mapID optsMapRead, EvSnapshotForTree]) revision)
        = (Some (GetMapLeavesResponse.MapRoot resp), None)
      \<and> UnmarshalBinary E (SignedMapRoot.MapRoot (GetMapLeavesResponse.MapRoot resp)) = Inr mapRoot
      \<and> fetchLeaves E
           (h @ [EvGetTree mapID optsMapRead, EvSnapshotForTree, root_event revision]
              @ (if leavesFirst E then []
                 else [EvBatchInclusionProof (MapRootV1.Revision mapRoot)
                         (MapRootV1.Revision mapRoot) indices]))
           (MapRootV1.Revision mapRoot) indices = Inr m
      \<and> fetchProofs E
           (h @ [EvGetTree mapID optsMapRead, EvSnapshotForTree, root_event revision]
              @ (if leavesFirst E then [EvGet (MapRootV1.Revision mapRoot) indices] else []))
           (MapRootV1.Revision mapRoot) indices = Inr proofs
      \<and> MapLeafInclusion resp
          = map (\<lambda>index. \<lparr>Leaf = m index, Inclusion = proofOf proofs index\<rparr>) indices
      \<and> h' = h @ [EvGetTree mapID optsMapRead, EvSnapshotForTree, root_event revision]
               @ fetch_events (leavesFirst E) (MapRootV1.Revision mapRoot) indices
               @ [EvCommit, EvClose]"
  using assms
  unfolding getLeavesByRevision_def getTreeAndHasher_def snapshotForTree_def fetchRoot_def
    fetchConcurrently_def root_event_def fetch_events_def Let_def
  by (auto split: splits)






text \<open>
  Claim C8. In a successful read with proofs, the response carries the root that the
  storage returned (the latest one for a negative revision, the one of the requested
  revision otherwise), and the history shows the two fetches that were made: \<open>tx.Get\<close>
  and \<open>BatchInclusionProof\<close> (whose reader is made for the same revision) are both called
  with the revision that \<open>UnmarshalBinary\<close> reads in that root, in either order, and with
  no other revision.
\<close>

theorem fetches_use_root_revision:
  assumes "getLeavesByRevision E mapID indices revision h = (Inr resp, h')"
  shows "\<exists>mapRoot.
      (if sint revision < 0
       then LatestSignedMapRoot E (h @ [EvGetTree mapID optsMapRead, EvSnapshotForTree])
       else GetSignedMapRoot E (h @ [EvGetTree mapID optsMapRead, EvSnapshotForTree]) revision)
        = (Some (GetMapLeavesResponse.MapRoot resp), None)
      \<and> UnmarshalBinary E (SignedMapRoot.MapRoot (GetMapLeavesResponse.MapRoot resp)) = Inr mapRoot
      \<and> h' = h @ [EvGetTree mapID optsMapRead, EvSnapshotForTree, root_event revision]
               @ fetch_events (leavesFirst E) (MapRootV1.Revision mapRoot) indices
               @ [EvCommit, EvClose]"
  using getLeavesByRevision_success [OF assms] by blast

lemma example_last_root_read:
  "last_root (example_init_history @ [EvGetTree 7 optsMapRead, EvSnapshotForTree])
     = Some (example_sign example_rev0)"
  by (simp add: example_init_history_def)

lemma example_getLeaves_run:
  "getLeavesByRevision example_env 7 [[1], [2]] mostRecentRevision example_init_history
     = (Inr example_response, example_read_history)"
  by (simp add: getLeavesByRevision_def example_getTreeAndHasher example_hasher_simps
      validateIndices_def validateIndices_loop.simps seen_def snapshotForTree_def
      example_env_simps fetchRoot_def mostRecentRevision_def example_last_root_read
      example_sign_def example_rev0_def example_unmarshal_def fetchConcurrently_def
      fetchLeaves_def fetchProofs_def example_leaf_def emptyLeaf_def proofOf_def
      example_response_def example_read_history_def Let_def fun_upd_def)


text \<open>
  The theorem at the example storage and a request for the latest revision (-1): both
  fetches are made at revision 0, the revision of the stored root.
\<close>

theorem fetches_use_root_revision_witness:
  "getLeavesByRevision example_env 7 [[1], [2]] mostRecentRevision example_init_history
     = (Inr example_response, example_read_history)
   \<and> (\<exists>mapRoot.
        UnmarshalBinary example_env (SignedMapRoot.MapRoot (GetMapLeavesResponse.MapRoot example_response))
          = Inr mapRoot
        \<and> example_read_history
            = example_init_history
               @ [EvGetTree 7 optsMapRead, EvSnapshotForTree, root_event mostRecentRevision]
               @ fetch_events (leavesFirst example_env) (MapRootV1.Revision mapRoot) [[1], [2]]
               @ [EvCommit, EvClose])"
  using fetches_use_root_revision [OF example_getLeaves_run] example_getLeaves_run
  by blast

section \<open>The sibling ids of the preload\<close>

lemma set_concat_update:
  assumes "k < length qs" and "qs ! k = x # rest"
  shows "insert x (set (concat (qs[k := rest]))) = set (concat qs)"
proof -
  have qs: "qs = take k qs @ (x # rest) # drop (Suc k) qs"
    using assms by (metis id_take_nth_drop)
  have "qs[k := rest] = take k qs @ rest # drop (Suc k) qs"
    using assms(1) by (simp add: upd_conv_take_nth_drop)
  then have "insert x (set (concat (qs[k := rest])))
      = set (concat (take k qs @ (x # rest) # drop (Suc k) qs))"
    by auto
  with qs show ?thesis by simp
qed

lemma set_interleave: "set (interleave ks qs) = set (concat qs)"
proof (induction ks arbitrary: qs)
  case Nil
  then show ?case by simp
next
  case (Cons k ks)
  show ?case
  proof (cases "k < length qs")
    case False
    then show ?thesis using Cons.IH by simp
  next
    case True
    show ?thesis
    proof (cases "qs ! k")
      case Nil
      then show ?thesis using True Cons.IH by simp
    next
      case (Cons x rest)
      then show ?thesis
        using True Cons.IH [of "qs[k := rest]"] set_concat_update [OF True Cons]
        by simp
    qed
  qed
qed

lemma consume_invariant:
  assumes "dom nidSet = key ` set nids" and "distinct (map key nids)"
  shows "distinct (map key (consume key c nidSet nids))
       \<and> key ` set (consume key c nidSet nids) = key ` (set nids \<union> set c)
       \<and> set (consume key c nidSet nids) \<subseteq> set nids \<union> set c"
  using assms
proof (induction c arbitrary: nidSet nids)
  case Nil
  then show ?case by simp
next
  case (Cons node c)
  show ?case
  proof (cases "nidSet (key node) = None")
    case True
    then have new: "key node \<notin> key ` set nids"
      using Cons.prems(1) by (metis domIff)
    have d: "dom (nidSet(key node \<mapsto> True)) = key ` set (nids @ [node])"
      using Cons.prems(1) by auto
    have e: "distinct (map key (nids @ [node]))"
      using Cons.prems(2) new by auto
    have step: "consume key (node # c) nidSet nids
                  = consume key c (nidSet(key node \<mapsto> True)) (nids @ [node])"
      using True by simp
    have eq: "set (nids @ [node]) \<union> set c = set nids \<union> set (node # c)"
      by auto
    from Cons.IH [OF d e] show ?thesis
      unfolding step eq .
  next
    case False
    then have old: "key node \<in> key ` set nids"
      using Cons.prems(1) by (metis domIff)
    have step: "consume key (node # c) nidSet nids = consume key c nidSet nids"
      using False by auto
    have img: "key ` (set nids \<union> set (node # c)) = key ` (set nids \<union> set c)"
      using old by auto
    from Cons.IH [OF Cons.prems]
    have "distinct (map key (consume key c nidSet nids))"
      "key ` set (consume key c nidSet nids) = key ` (set nids \<union> set c)"
      "set (consume key c nidSet nids) \<subseteq> set nids \<union> set c"
      by simp_all
    then show ?thesis
      unfolding step img by auto
  qed
qed

lemma calcAllSiblingsParallel_keys:
  "distinct (map (AsKey E) (calcAllSiblingsParallel E d hkv))
   \<and> AsKey E ` set (calcAllSiblingsParallel E d hkv) = AsKey E ` all_siblings E hkv
   \<and> set (calcAllSiblingsParallel E d hkv) \<subseteq> all_siblings E hkv"
  using consume_invariant [of Map.empty "AsKey E" "[]"
      "interleave (schedule E) (map (\<lambda>i. producer E (HashedKey i)) hkv)"]
  by (simp add: calcAllSiblingsParallel_def all_siblings_def set_interleave)

lemma calcAllSiblingsParallel_set:
  assumes "inj_on (AsKey E) (all_siblings E hkv)"
  shows "set (calcAllSiblingsParallel E d hkv) = all_siblings E hkv"
proof -
  from calcAllSiblingsParallel_keys [of E d hkv]
  have i: "AsKey E ` set (calcAllSiblingsParallel E d hkv) = AsKey E ` all_siblings E hkv"
    and s: "set (calcAllSiblingsParallel E d hkv) \<subseteq> all_siblings E hkv"
    by simp_all
  from assms s i show ?thesis
    by (metis inj_on_image_eq_iff subset_refl)
qed

lemma schedule_irrelevant:
  "all_siblings (E\<lparr>schedule := s\<rparr>) hkv = all_siblings E hkv"
  "AsKey (E\<lparr>schedule := s\<rparr>) = AsKey E"
  by (simp_all add: all_siblings_def producer_def)

section \<open>The preload step\<close>

lemma makeSignedMapRoot_preload:
  "makeSignedMapRoot E tree smrTs rootHash mapID revision meta h = (x, h5)
     \<Longrightarrow> preload_events h5 = preload_events h"
  by (auto simp: makeSignedMapRoot_def preload_events_def Let_def split: option.splits sum.splits)

lemma doPreload_events:
  "doPreload E treeDepth hkv h = (r, h1) \<Longrightarrow>
   preload_events h1 = preload_events h @
     (case ReadRevision E h of
        Inl err \<Rightarrow> [EvReadRevision]
      | Inr readRev \<Rightarrow>
          [EvReadRevision, EvGetMerkleNodes readRev (calcAllSiblingsParallel E treeDepth hkv)])"
  by (auto simp: doPreload_def preload_events_def Let_def split: sum.splits)

lemma doPreload_failed:
  "doPreload E treeDepth hkv h = (Some err, h1) \<Longrightarrow>
   (case ReadRevision E h of
      Inl e \<Rightarrow> e = err
    | Inr readRev \<Rightarrow>
        GetMerkleNodes E (h @ [EvReadRevision]) readRev (calcAllSiblingsParallel E treeDepth hkv)
          = Some err)"
  by (auto simp: doPreload_def Let_def split: sum.splits)

lemma updateTree_preload_events:
  "preload_events (snd (updateTree E opts tree hasher hkv metadata rev' h))
     = preload_events h @
       (if UseSingleTransaction opts \<and> UseLargePreload opts then
          (case ReadRevision E h of
             Inl err \<Rightarrow> [EvReadRevision]
           | Inr readRev \<Rightarrow>
               [EvReadRevision,
                EvGetMerkleNodes readRev (calcAllSiblingsParallel E (BitLen hasher) hkv)])
        else [])"
proof -
  obtain r h1 where p:
    "(if UseSingleTransaction opts \<and> UseLargePreload opts
      then doPreload E (BitLen hasher) hkv h else (None, h)) = (r, h1)"
    by (cases "if UseSingleTransaction opts \<and> UseLargePreload opts
               then doPreload E (BitLen hasher) hkv h else (None, h)")
  have tail: "preload_events (snd (updateTree E opts tree hasher hkv metadata rev' h))
                = preload_events h1"
    unfolding updateTree_def Let_def p
    by (auto simp: preload_events_def split: option.splits sum.splits prod.splits
        dest!: makeSignedMapRoot_preload)
  show ?thesis
  proof (cases "UseSingleTransaction opts \<and> UseLargePreload opts")
    case True
    with p have "doPreload E (BitLen hasher) hkv h = (r, h1)" by simp
    from doPreload_events [OF this] tail True show ?thesis by simp
  next
    case False
    with p have "h1 = h" by auto
    with tail False show ?thesis by auto
  qed
qed

text \<open>
  Claim C7. Among the calls that \<open>updateTree\<close> itself makes on the transaction, the
  preload calls are there exactly when \<open>UseSingleTransaction\<close> and \<open>UseLargePreload\<close> are
  both set: \<open>ReadRevision\<close> and, when it returned a revision, one \<open>GetMerkleNodes\<close> at
  that revision for the node ids of \<open>calcAllSiblingsParallel\<close>. Under every schedule of the
  producers these node ids have pairwise distinct keys, they are siblings of the paths of
  the hashed keys, and their keys are the keys of all those siblings; so when \<open>AsKey\<close>
  tells the siblings apart, the ids are all the siblings, each once, the same set for every
  schedule.
\<close>

theorem preload_once:
  "preload_events (snd (updateTree E opts tree hasher hkv metadata rev' h))
     = preload_events h @
       (if UseSingleTransaction opts \<and> UseLargePreload opts then
          (case ReadRevision E h of
             Inl err \<Rightarrow> [EvReadRevision]
           | Inr readRev \<Rightarrow>
               [EvReadRevision,
                EvGetMerkleNodes readRev (calcAllSiblingsParallel E (BitLen hasher) hkv)])
        else [])
   \<and> distinct (map (AsKey E) (calcAllSiblingsParallel (E\<lparr>schedule := s\<rparr>) d hkv))
   \<and> AsKey E ` set (calcAllSiblingsParallel (E\<lparr>schedule := s\<rparr>) d hkv)
       = AsKey E ` all_siblings E hkv
   \<and> set (calcAllSiblingsParallel (E\<lparr>schedule := s\<rparr>) d hkv) \<subseteq> all_siblings E hkv
   \<and> (inj_on (AsKey E) (all_siblings E hkv)
        \<longrightarrow> set (calcAllSiblingsParallel (E\<lparr>schedule := s\<rparr>) d hkv) = all_siblings E hkv)"
  using calcAllSiblingsParallel_keys [of "E\<lparr>schedule := s\<rparr>" d hkv]
    calcAllSiblingsParallel_set [of "E\<lparr>schedule := s\<rparr>" hkv d]
  by (simp add: updateTree_preload_events schedule_irrelevant)

lemma example_node_simps:
  "producer example_env k
     = [\<lparr>PrefixLenBits = 8, Path = map (\<lambda>b. b + 1) k\<rparr>, \<lparr>PrefixLenBits = 1, Path = [1]\<rparr>]"
  "AsKey example_env n = word_of_int (PrefixLenBits n) # Path n"
  by (simp_all add: producer_def example_env_def)

lemma example_all_siblings: "all_siblings example_env example_hkv = set example_nids"
  by (auto simp: all_siblings_def example_hkv_def example_nids_def example_node_simps)

lemma example_calc:
  "calcAllSiblingsParallel example_env 8 example_hkv = example_nids"
  by (simp add: calcAllSiblingsParallel_def example_hkv_def example_nids_def example_node_simps
      example_env_simps)

lemma example_inj: "inj_on (AsKey example_env) (all_siblings example_env example_hkv)"
  by (simp add: example_all_siblings example_nids_def example_node_simps)

text \<open>
  The theorem at the example tree, for the hashed keys \<open>[1]\<close> and \<open>[2]\<close>, whose paths
  share a sibling: three node ids are preloaded, under another schedule as well.
\<close>

theorem preload_once_witness:
  "inj_on (AsKey example_env) (all_siblings example_env example_hkv)
   \<and> preload_events (snd (updateTree example_env example_preload_opts
          \<lparr>TreeId = 7, HashStrategy = 0\<rparr> example_hasher example_hkv [] 1 []))
       = [EvReadRevision, EvGetMerkleNodes 0 example_nids]
   \<and> set (calcAllSiblingsParallel (example_env\<lparr>schedule := [0, 0, 1]\<rparr>) 8 example_hkv)
       = set example_nids"
  using preload_once [of example_env example_preload_opts "\<lparr>TreeId = 7, HashStrategy = 0\<rparr>"
      example_hasher example_hkv "[]" 1 "[]" "[0, 0, 1]" 8] example_inj
  by (simp add: example_preload_opts_def example_env_simps example_hasher_simps example_calc
      example_all_siblings preload_events_def)

end
